theory Spec2Isabelle
  imports Complex_Main
begin

section \<open>Data model of the performance tracker\<close>

text \<open>
  The tracker of \<^verbatim>\<open>VideoCommon/PerformanceTracker.cpp\<close> keeps a ring buffer of
  samples, the running totals of the retained samples, a simple moving average, an
  exponential moving average of the rate and a cached standard deviation.
\<close>

text \<open>
  Modelled from the spec: the types \<^verbatim>\<open>DT\<close>, \<^verbatim>\<open>TimePoint\<close> and \<^verbatim>\<open>TimeDataPair\<close> are
  declared in headers that are not among the sources. The spec calls a sample "a
  pair \<open>(duration, measurement)\<close>", the duration being the "wall-clock time elapsed
  since the previous sample", counted in "time units". \<^verbatim>\<open>Count\<close> takes a \<^verbatim>\<open>DT\<close> as the
  difference of two readings of \<^verbatim>\<open>Clock::now()\<close> and converts it with
  \<^verbatim>\<open>duration_cast\<close> from and to the floating-point seconds \<^verbatim>\<open>DT_s\<close>: both types are
  signed 64-bit tick counts of the steady clock, in nanoseconds. They are
  mathematical integers here, so the overflow of a tick count (about 292 years) is
  outside the model.
\<close>

type_synonym DT = int
type_synonym TimePoint = int

record TimeDataPair =
  duration :: DT
  measurement :: DT

text \<open>
  The values of type \<^verbatim>\<open>double\<close>. A finite value is a real number: rounding, and the
  overflow of a finite result to an infinity, are left out, and the two zeros are
  identified. The infinities and the not-a-number value are kept, with the IEEE 754
  rules for them, because the code relies on them (\<^verbatim>\<open>std::isfinite\<close>).
  An equation between finite values therefore holds of the code up to rounding. A
  strict inequality need not: \<open>1 - exp (- x)\<close> is below 1 for every real \<open>x\<close>, and
  is the double 1.0 once \<open>x\<close> is about 37 or more. No theorem below rests on such an
  inequality outside the concrete inputs where the values are far apart.
\<close>

datatype double = Finite real | PInf | NInf | NaN

record VideoConfig =
  iPerfSampleUSec :: int
  bLogRenderTimeToFile :: bool

text \<open>
  The members of the class. \<open>m_dt_queue\<close> is the array of the ring buffer, read and
  written at indices below the capacity only; \<open>m_bench_file\<close> is \<open>None\<close> while the
  log file is not open and otherwise the measurements written so far, oldest first.
\<close>

record PerformanceTracker =
  m_log_name :: "string option"
  m_sample_window_us :: "int option"
  m_bench_file :: "DT list option"
  m_paused :: bool
  m_last_time :: TimePoint
  m_hz_avg :: double
  m_dt_avg :: DT
  m_dt_std :: "DT option"
  m_dt_total :: TimeDataPair
  m_dt_queue :: "nat \<Rightarrow> TimeDataPair"
  m_dt_queue_begin :: nat
  m_dt_queue_end :: nat

subsection \<open>Arithmetic of double values\<close>

fun isfinite :: "double \<Rightarrow> bool" where
  "isfinite (Finite x) = True"
| "isfinite PInf = False"
| "isfinite NInf = False"
| "isfinite NaN = False"

fun duminus :: "double \<Rightarrow> double" where
  "duminus (Finite x) = Finite (- x)"
| "duminus PInf = NInf"
| "duminus NInf = PInf"
| "duminus NaN = NaN"

fun dplus :: "double \<Rightarrow> double \<Rightarrow> double" where
  "dplus (Finite x) (Finite y) = Finite (x + y)"
| "dplus (Finite x) PInf = PInf"
| "dplus (Finite x) NInf = NInf"
| "dplus PInf (Finite y) = PInf"
| "dplus PInf PInf = PInf"
| "dplus PInf NInf = NaN"
| "dplus NInf (Finite y) = NInf"
| "dplus NInf NInf = NInf"
| "dplus NInf PInf = NaN"
| "dplus NaN y = NaN"
| "dplus x NaN = NaN"

definition dminus :: "double \<Rightarrow> double \<Rightarrow> double" where
  "dminus x y = dplus x (duminus y)"

fun dtimes :: "double \<Rightarrow> double \<Rightarrow> double" where
  "dtimes (Finite x) (Finite y) = Finite (x * y)"
| "dtimes (Finite x) PInf = (if x = 0 then NaN else if 0 < x then PInf else NInf)"
| "dtimes (Finite x) NInf = (if x = 0 then NaN else if 0 < x then NInf else PInf)"
| "dtimes PInf (Finite y) = (if y = 0 then NaN else if 0 < y then PInf else NInf)"
| "dtimes NInf (Finite y) = (if y = 0 then NaN else if 0 < y then NInf else PInf)"
| "dtimes PInf PInf = PInf"
| "dtimes PInf NInf = NInf"
| "dtimes NInf PInf = NInf"
| "dtimes NInf NInf = PInf"
| "dtimes NaN y = NaN"
| "dtimes x NaN = NaN"

fun ddivide :: "double \<Rightarrow> double \<Rightarrow> double" where
  "ddivide (Finite x) (Finite y) =
     (if y = 0 then (if x = 0 then NaN else if 0 < x then PInf else NInf)
      else Finite (x / y))"
| "ddivide (Finite x) PInf = Finite 0"
| "ddivide (Finite x) NInf = Finite 0"
| "ddivide PInf (Finite y) = (if y < 0 then NInf else PInf)"
| "ddivide NInf (Finite y) = (if y < 0 then PInf else NInf)"
| "ddivide PInf PInf = NaN"
| "ddivide PInf NInf = NaN"
| "ddivide NInf PInf = NaN"
| "ddivide NInf NInf = NaN"
| "ddivide NaN y = NaN"
| "ddivide x NaN = NaN"

fun dexp :: "double \<Rightarrow> double" where
  "dexp (Finite x) = Finite (exp x)"
| "dexp PInf = PInf"
| "dexp NInf = Finite 0"
| "dexp NaN = NaN"

text \<open>
  \<^verbatim>\<open>DT_s(d)\<close>: a tick count as a \<^verbatim>\<open>double\<close> number of seconds, and
  \<^verbatim>\<open>duration_cast<DT>(DT_s(x))\<close>: seconds back to ticks, rounded towards zero. The
  conversion back is exact here; in the code the argument has been rounded, so the
  result can be one tick less, and a value beyond the 64-bit range has no defined
  conversion. The theorems on the claims use the conversion only to tell 0 from a
  value that is not 0.
\<close>

definition DT_s :: "DT \<Rightarrow> double" where
  "DT_s d = Finite (real_of_int d / 10 ^ 9)"

definition DT_of_seconds :: "real \<Rightarrow> DT" where
  "DT_of_seconds x = (if 0 \<le> x then \<lfloor>x * 10 ^ 9\<rfloor> else \<lceil>x * 10 ^ 9\<rceil>)"

text \<open>
  \<^verbatim>\<open>m_dt_total.measurement / QueueSize()\<close> divides a signed 64-bit tick count by a
  \<^verbatim>\<open>std::size_t\<close>: the quotient is computed in the common type of the two, the
  unsigned 64-bit integers, and converted back to the signed tick count. For a total
  that is not negative this is the integer quotient; a negative total is first read
  as the unsigned number \<open>t + 2 ^ 64\<close>.
\<close>

definition DT_div :: "DT \<Rightarrow> nat \<Rightarrow> DT" where
  "DT_div t n =
     (if 0 \<le> t then t div int n
      else
        let q = (t + 2 ^ 64) div int n
        in if q < 2 ^ 63 then q else q - 2 ^ 64)"

definition SAMPLE_RC_RATIO :: real where
  "SAMPLE_RC_RATIO = 33 / 100"

definition TimePoint_max :: TimePoint where
  "TimePoint_max = 2 ^ 63 - 1"

subsection \<open>The ring buffer\<close>

text \<open>
  Modelled from the spec: the header \<^verbatim>\<open>VideoCommon/PerformanceTracker.h\<close> is not among
  the sources; it declares the capacity \<^verbatim>\<open>MAX_DT_QUEUE_SIZE\<close> and the index helpers
  \<^verbatim>\<open>IncrementIndex\<close>, \<^verbatim>\<open>DecrementIndex\<close> and \<^verbatim>\<open>GetDifference\<close>. The spec describes the
  window as "a ring buffer with begin/end indices modulo N" of fixed capacity \<open>N\<close>.
  The capacity is the parameter \<open>N\<close> of every operation below, and the helpers are
  the successor, the predecessor and the difference modulo \<open>N\<close>.
\<close>

definition IncrementIndex :: "nat \<Rightarrow> nat \<Rightarrow> nat" where
  "IncrementIndex N i = (i + 1) mod N"

definition DecrementIndex :: "nat \<Rightarrow> nat \<Rightarrow> nat" where
  "DecrementIndex N i = (i + N - 1) mod N"

definition GetDifference :: "nat \<Rightarrow> nat \<Rightarrow> nat \<Rightarrow> nat" where
  "GetDifference N b e = (e + N - b) mod N"

text \<open>
  Modelled from the spec: the operators \<^verbatim>\<open>+=\<close> and \<^verbatim>\<open>-=\<close> of \<^verbatim>\<open>TimeDataPair\<close> are
  declared in the same header; the running totals are "maintained incrementally as
  samples are pushed/evicted", field by field. \<^verbatim>\<open>QueueClear\<close> assigns the zero
  duration to the totals, which "zeroes all aggregates": both fields become 0.
\<close>

definition pair_add :: "TimeDataPair \<Rightarrow> TimeDataPair \<Rightarrow> TimeDataPair" where
  "pair_add a b =
     \<lparr>duration = duration a + duration b, measurement = measurement a + measurement b\<rparr>"

definition pair_sub :: "TimeDataPair \<Rightarrow> TimeDataPair \<Rightarrow> TimeDataPair" where
  "pair_sub a b =
     \<lparr>duration = duration a - duration b, measurement = measurement a - measurement b\<rparr>"

definition QueueClear :: "PerformanceTracker \<Rightarrow> PerformanceTracker" where
  "QueueClear s =
     s\<lparr>m_dt_total := \<lparr>duration = 0, measurement = 0\<rparr>,
       m_dt_queue_begin := 0,
       m_dt_queue_end := 0\<rparr>"

definition QueuePush :: "nat \<Rightarrow> TimeDataPair \<Rightarrow> PerformanceTracker \<Rightarrow> PerformanceTracker" where
  "QueuePush N dt s =
     s\<lparr>m_dt_queue := (m_dt_queue s)(m_dt_queue_end s := dt),
       m_dt_queue_end := IncrementIndex N (m_dt_queue_end s)\<rparr>"

definition QueuePop :: "nat \<Rightarrow> PerformanceTracker \<Rightarrow> TimeDataPair \<times> PerformanceTracker" where
  "QueuePop N s =
     (let top = m_dt_queue_begin s
      in (m_dt_queue s top, s\<lparr>m_dt_queue_begin := IncrementIndex N (m_dt_queue_begin s)\<rparr>))"

definition QueueTop :: "PerformanceTracker \<Rightarrow> TimeDataPair" where
  "QueueTop s = m_dt_queue s (m_dt_queue_begin s)"

definition QueueBottom :: "nat \<Rightarrow> PerformanceTracker \<Rightarrow> TimeDataPair" where
  "QueueBottom N s = m_dt_queue s (DecrementIndex N (m_dt_queue_end s))"

definition QueueSize :: "nat \<Rightarrow> PerformanceTracker \<Rightarrow> nat" where
  "QueueSize N s = GetDifference N (m_dt_queue_begin s) (m_dt_queue_end s)"

definition QueueEmpty :: "PerformanceTracker \<Rightarrow> bool" where
  "QueueEmpty s = (m_dt_queue_begin s = m_dt_queue_end s)"

text \<open>
  \<^verbatim>\<open>m_dt_total -= QueuePop()\<close>, the statement that removes the oldest sample in
  \<^verbatim>\<open>Count\<close>: the begin index moves on and the sample leaves the running totals.
\<close>

definition pop_total :: "nat \<Rightarrow> PerformanceTracker \<Rightarrow> PerformanceTracker" where
  "pop_total N s =
     (let (top, s') = QueuePop N s
      in s'\<lparr>m_dt_total := pair_sub (m_dt_total s') top\<rparr>)"

subsection \<open>Ingestion\<close>

text \<open>
  \<^verbatim>\<open>GetSampleWindow\<close>: the override given to the constructor, or else the configured
  value raised to 1, in microseconds, converted to ticks. The active configuration
  \<^verbatim>\<open>g_ActiveConfig\<close> is a global of the program and an argument here.
\<close>

definition GetSampleWindow :: "VideoConfig \<Rightarrow> PerformanceTracker \<Rightarrow> DT" where
  "GetSampleWindow cfg s =
     (case m_sample_window_us s of
        Some w \<Rightarrow> w
      | None \<Rightarrow> max 1 (iPerfSampleUSec cfg)) * 1000"

text \<open>
  \<^verbatim>\<open>LogRenderTimeToFile\<close>: without a log name, or with logging switched off, nothing
  happens; otherwise the file is opened if it is not open yet and the value is
  written as one more line.
\<close>

definition LogRenderTimeToFile :: "VideoConfig \<Rightarrow> DT \<Rightarrow> PerformanceTracker \<Rightarrow> PerformanceTracker" where
  "LogRenderTimeToFile cfg val s =
     (if m_log_name s = None \<or> \<not> bLogRenderTimeToFile cfg then s
      else
        let lines = (case m_bench_file s of None \<Rightarrow> [] | Some ls \<Rightarrow> ls)
        in s\<lparr>m_bench_file := Some (lines @ [val])\<rparr>)"

text \<open>
  The eviction loop of \<^verbatim>\<open>Count\<close>,
  \<^verbatim>\<open>while (window <= m_dt_total.duration - QueueTop().duration) m_dt_total -= QueuePop();\<close>.
  The loop has no test for an empty buffer, and nothing in the source bounds the
  number of its rounds, so a run that never leaves it is the value \<open>None\<close>.
\<close>

partial_function (option) evict :: "nat \<Rightarrow> DT \<Rightarrow> PerformanceTracker \<Rightarrow> PerformanceTracker option" where
  "evict N window s =
     (if window \<le> duration (m_dt_total s) - duration (QueueTop s)
      then evict N window (pop_total N s)
      else Some s)"

text \<open>
  The first half of \<^verbatim>\<open>Count\<close> for a tracker that is not paused: the new sample is
  built from the clock reading, pushed and added to the totals, the oldest sample is
  dropped when the indices meet, and the eviction loop runs.
\<close>

definition Count_data_point :: "TimePoint \<Rightarrow> DT option \<Rightarrow> bool \<Rightarrow> PerformanceTracker \<Rightarrow> TimeDataPair" where
  "Count_data_point now custom_measurement is_continuous_duration s =
     (let dur = now - m_last_time s;
          val = (case custom_measurement of Some v \<Rightarrow> v | None \<Rightarrow> dur)
      in \<lparr>duration = (if is_continuous_duration then val else dur), measurement = val\<rparr>)"

definition Count_push :: "nat \<Rightarrow> TimePoint \<Rightarrow> TimeDataPair \<Rightarrow> PerformanceTracker \<Rightarrow> PerformanceTracker" where
  "Count_push N now data_point s =
     (let s1 = s\<lparr>m_last_time := now\<rparr>;
          s2 = QueuePush N data_point s1;
          s3 = s2\<lparr>m_dt_total := pair_add (m_dt_total s2) data_point\<rparr>
      in if m_dt_queue_begin s3 = m_dt_queue_end s3 then pop_total N s3 else s3)"

text \<open>
  The second half of \<^verbatim>\<open>Count\<close>: the simple moving average, the rate \<^verbatim>\<open>hz\<close>, the
  smoothing factor \<^verbatim>\<open>a\<close>, the exponential moving average, the invalidation of the
  cached standard deviation and the log line.
\<close>

definition Count_hz :: "nat \<Rightarrow> PerformanceTracker \<Rightarrow> double" where
  "Count_hz N s = ddivide (Finite (real (QueueSize N s))) (DT_s (measurement (m_dt_total s)))"

definition Count_a :: "DT \<Rightarrow> TimeDataPair \<Rightarrow> double" where
  "Count_a window data_point =
     (let rc = Finite (SAMPLE_RC_RATIO * (real_of_int window / 10 ^ 9))
      in dminus (Finite 1) (dexp (duminus (ddivide (DT_s (duration data_point)) rc))))"

definition Count_stats :: "nat \<Rightarrow> VideoConfig \<Rightarrow> DT \<Rightarrow> TimeDataPair \<Rightarrow> PerformanceTracker \<Rightarrow> PerformanceTracker" where
  "Count_stats N cfg window data_point s =
     (let s1 = s\<lparr>m_dt_avg := DT_div (measurement (m_dt_total s)) (QueueSize N s)\<rparr>;
          hz = Count_hz N s1;
          a = Count_a window data_point;
          s2 = (if isfinite (m_hz_avg s1)
                then s1\<lparr>m_hz_avg := dplus (m_hz_avg s1) (dtimes a (dminus hz (m_hz_avg s1)))\<rparr>
                else s1\<lparr>m_hz_avg := hz\<rparr>);
          s3 = s2\<lparr>m_dt_std := None\<rparr>
      in LogRenderTimeToFile cfg (measurement data_point) s3)"

text \<open>
  \<^verbatim>\<open>Count\<close>. The clock reading \<open>now\<close> and the active configuration \<open>cfg\<close> are
  inputs of the call. The value is \<open>None\<close> when the call does not return normally:
  when the eviction loop never ends, or when it has emptied the window, so that
  \<^verbatim>\<open>m_dt_total.measurement / QueueSize()\<close> is an integer division by zero.
\<close>

definition Count :: "nat \<Rightarrow> VideoConfig \<Rightarrow> TimePoint \<Rightarrow> DT option \<Rightarrow> bool \<Rightarrow> PerformanceTracker \<Rightarrow> PerformanceTracker option" where
  "Count N cfg now custom_measurement is_continuous_duration s =
     (if m_paused s then Some s
      else
        let window = GetSampleWindow cfg s;
            data_point = Count_data_point now custom_measurement is_continuous_duration s
        in case evict N window (Count_push N now data_point s) of
             None \<Rightarrow> None
           | Some s' \<Rightarrow>
               if QueueSize N s' = 0 then None
               else Some (Count_stats N cfg window data_point s'))"

subsection \<open>Reset, pause and the accessors\<close>

definition Reset :: "TimePoint \<Rightarrow> PerformanceTracker \<Rightarrow> PerformanceTracker" where
  "Reset now s =
     (QueueClear s)\<lparr>m_last_time := now, m_hz_avg := Finite 0, m_dt_avg := 0, m_dt_std := None\<rparr>"

definition SetPaused :: "bool \<Rightarrow> TimePoint \<Rightarrow> PerformanceTracker \<Rightarrow> PerformanceTracker" where
  "SetPaused paused now s =
     (let s1 = s\<lparr>m_paused := paused\<rparr>
      in if m_paused s1 then s1\<lparr>m_last_time := TimePoint_max\<rparr> else s1\<lparr>m_last_time := now\<rparr>)"

definition GetHzAvg :: "PerformanceTracker \<Rightarrow> double" where
  "GetHzAvg s = m_hz_avg s"

definition GetDtAvg :: "PerformanceTracker \<Rightarrow> DT" where
  "GetDtAvg s = m_dt_avg s"

definition GetLastRawDt :: "nat \<Rightarrow> PerformanceTracker \<Rightarrow> DT" where
  "GetLastRawDt N s = (if QueueEmpty s then 0 else measurement (QueueBottom N s))"

text \<open>
  The loop of \<^verbatim>\<open>GetDtStd\<close>,
  \<^verbatim>\<open>for (i = m_dt_queue_begin; i != m_dt_queue_end; i = IncrementIndex(i))\<close>, which adds
  the square of the difference, in seconds, between the measurement at \<open>i\<close> and the
  stored average. It is left only when the index meets the end index.
\<close>

partial_function (option) GetDtStd_loop :: "nat \<Rightarrow> PerformanceTracker \<Rightarrow> nat \<Rightarrow> real \<Rightarrow> real option" where
  "GetDtStd_loop N s i tot =
     (if i \<noteq> m_dt_queue_end s
      then GetDtStd_loop N s (IncrementIndex N i)
             (tot + (real_of_int (measurement (m_dt_queue s i) - m_dt_avg s) / 10 ^ 9)
                      * (real_of_int (measurement (m_dt_queue s i) - m_dt_avg s) / 10 ^ 9))
      else Some tot)"

definition GetDtStd :: "nat \<Rightarrow> PerformanceTracker \<Rightarrow> (DT \<times> PerformanceTracker) option" where
  "GetDtStd N s =
     (case m_dt_std s of
        Some v \<Rightarrow> Some (v, s)
      | None \<Rightarrow>
          if QueueEmpty s then Some (0, s\<lparr>m_dt_std := Some 0\<rparr>)
          else
            (case GetDtStd_loop N s (m_dt_queue_begin s) 0 of
               None \<Rightarrow> None
             | Some tot \<Rightarrow>
                 let v = DT_of_seconds (sqrt (tot / real (QueueSize N s)))
                 in Some (v, s\<lparr>m_dt_std := Some v\<rparr>)))"

text \<open>
  The constructor stores the log name and the window override and calls \<open>Reset\<close>;
  \<open>mem\<close> is the object before the constructor body runs, with whatever the absent
  header gives the other members.
\<close>

definition PerformanceTracker_new :: "string option \<Rightarrow> int option \<Rightarrow> TimePoint \<Rightarrow> PerformanceTracker \<Rightarrow> PerformanceTracker" where
  "PerformanceTracker_new log_name sample_window_us now mem =
     Reset now (mem\<lparr>m_log_name := log_name, m_sample_window_us := sample_window_us\<rparr>)"

subsection \<open>Sequences of calls\<close>

text \<open>
  A call of a public member function, with the clock reading and the configuration
  it sees. An accessor returns a value and leaves the tracker as it is, except
  \<open>GetDtStd\<close>, which may fill the cache.
\<close>

datatype call =
    Call_Count VideoConfig TimePoint "DT option" bool
  | Call_Reset TimePoint
  | Call_SetPaused bool TimePoint
  | Call_GetHzAvg
  | Call_GetDtAvg
  | Call_GetDtStd
  | Call_GetLastRawDt

fun call_step :: "nat \<Rightarrow> call \<Rightarrow> PerformanceTracker \<Rightarrow> PerformanceTracker option" where
  "call_step N (Call_Count cfg now custom_measurement is_continuous_duration) s =
     Count N cfg now custom_measurement is_continuous_duration s"
| "call_step N (Call_Reset now) s = Some (Reset now s)"
| "call_step N (Call_SetPaused paused now) s = Some (SetPaused paused now s)"
| "call_step N Call_GetHzAvg s = Some s"
| "call_step N Call_GetDtAvg s = Some s"
| "call_step N Call_GetDtStd s = map_option snd (GetDtStd N s)"
| "call_step N Call_GetLastRawDt s = Some s"

fun run_calls :: "nat \<Rightarrow> call list \<Rightarrow> PerformanceTracker \<Rightarrow> PerformanceTracker option" where
  "run_calls N [] s = Some s"
| "run_calls N (c # cs) s =
     (case call_step N c s of None \<Rightarrow> None | Some s' \<Rightarrow> run_calls N cs s')"

subsection \<open>The window as a list, and the properties of a tracker\<close>

text \<open>
  The indices from the begin index up to the end index, and the samples stored
  there: the window, oldest sample first.
\<close>

definition QueueIndices :: "nat \<Rightarrow> PerformanceTracker \<Rightarrow> nat list" where
  "QueueIndices N s = map (\<lambda>k. (m_dt_queue_begin s + k) mod N) [0..<QueueSize N s]"

definition QueueList :: "nat \<Rightarrow> PerformanceTracker \<Rightarrow> TimeDataPair list" where
  "QueueList N s = map (m_dt_queue s) (QueueIndices N s)"

definition ring_list :: "nat \<Rightarrow> (nat \<Rightarrow> 'a) \<Rightarrow> nat \<Rightarrow> nat \<Rightarrow> 'a list" where
  "ring_list N q b n = map (\<lambda>k. q ((b + k) mod N)) [0..<n]"

definition pair_sum :: "TimeDataPair list \<Rightarrow> TimeDataPair" where
  "pair_sum xs =
     \<lparr>duration = sum_list (map duration xs), measurement = sum_list (map measurement xs)\<rparr>"

text \<open>
  The indices are below the capacity and the running totals are the sums over the
  retained samples.
\<close>

definition tracker_inv :: "nat \<Rightarrow> PerformanceTracker \<Rightarrow> bool" where
  "tracker_inv N s \<longleftrightarrow>
     m_dt_queue_begin s < N \<and> m_dt_queue_end s < N \<and> m_dt_total s = pair_sum (QueueList N s)"

text \<open>
  The window length is positive: the configured value is raised to 1 by
  \<open>GetSampleWindow\<close>, an override given to the constructor is used as it is.
  The theorems below assume it: the eviction loop has no test for an empty window,
  and with a window length that is not positive it pops the last sample and goes
  on to slots that hold no sample.
\<close>

definition window_positive :: "PerformanceTracker \<Rightarrow> bool" where
  "window_positive s = (case m_sample_window_us s of None \<Rightarrow> True | Some w \<Rightarrow> 0 < w)"

text \<open>
  The population standard deviation of the values \<open>xs\<close> about the mean \<open>mean\<close>: the
  denominator is the number of values.
\<close>

definition population_stddev :: "real list \<Rightarrow> real \<Rightarrow> real" where
  "population_stddev xs mean = sqrt ((\<Sum>x\<leftarrow>xs. (x - mean) * (x - mean)) / real (length xs))"

text \<open>
  The standard deviation of the window: the population standard deviation of the
  measurements, in seconds, about the stored average, converted to ticks.
\<close>

definition window_stddev :: "nat \<Rightarrow> PerformanceTracker \<Rightarrow> DT" where
  "window_stddev N s =
     DT_of_seconds
       (population_stddev (map (\<lambda>x. real_of_int (measurement x) / 10 ^ 9) (QueueList N s))
          (real_of_int (m_dt_avg s) / 10 ^ 9))"

text \<open>
  The derived values agree with the window: the stored average is the quotient of
  the total measurement, and a cached standard deviation is the one that
  \<open>GetDtStd\<close> would compute.
\<close>

definition stats_inv :: "nat \<Rightarrow> PerformanceTracker \<Rightarrow> bool" where
  "stats_inv N s =
     (if QueueEmpty s then m_dt_std s = None \<or> m_dt_std s = Some 0
      else m_dt_avg s = DT_div (measurement (m_dt_total s)) (QueueSize N s)
         \<and> (m_dt_std s = None \<or> m_dt_std s = Some (window_stddev N s)))"

text \<open>
  What every tracker reached from \<open>Reset\<close> satisfies.
\<close>

definition tracker_ok :: "nat \<Rightarrow> PerformanceTracker \<Rightarrow> bool" where
  "tracker_ok N s \<longleftrightarrow> tracker_inv N s \<and> stats_inv N s \<and> window_positive s"

text \<open>
  The eviction rule in the words of the spec, on the window as a list with the
  oldest sample first: "repeatedly pop the oldest sample while
  \<open>total_duration - oldest.duration \<ge> window_length\<close>".
\<close>

fun evict_list :: "DT \<Rightarrow> TimeDataPair list \<Rightarrow> TimeDataPair list" where
  "evict_list w [] = []"
| "evict_list w (x # xs) =
     (if w \<le> sum_list (map duration (x # xs)) - duration x then evict_list w xs
      else x # xs)"

text \<open>
  The rate in the words of the spec: "\<open>rate = window_sample_count / total_duration\<close>
  (expressed in samples-per-second; treat \<open>total_duration == 0\<close> as rate \<open>0\<close>)".
\<close>

definition spec_rate :: "nat \<Rightarrow> PerformanceTracker \<Rightarrow> double" where
  "spec_rate N s =
     (if duration (m_dt_total s) = 0 then Finite 0
      else Finite (real (QueueSize N s) / (real_of_int (duration (m_dt_total s)) / 10 ^ 9)))"

subsection \<open>Concrete trackers and runs\<close>

definition zero_tracker :: PerformanceTracker where
  "zero_tracker =
     \<lparr>m_log_name = None, m_sample_window_us = None, m_bench_file = None, m_paused = False,
      m_last_time = 0, m_hz_avg = Finite 0, m_dt_avg = 0, m_dt_std = None,
      m_dt_total = \<lparr>duration = 0, measurement = 0\<rparr>,
      m_dt_queue = (\<lambda>i. \<lparr>duration = 0, measurement = 0\<rparr>),
      m_dt_queue_begin = 0, m_dt_queue_end = 0\<rparr>"

definition default_config :: VideoConfig where
  "default_config = \<lparr>iPerfSampleUSec = 1000000, bLogRenderTimeToFile = False\<rparr>"

text \<open>
  What a reader of the window sees: the number of samples, the total duration and
  the simple moving average.
\<close>

definition window_summary :: "nat \<Rightarrow> PerformanceTracker \<Rightarrow> nat \<times> DT \<times> DT" where
  "window_summary N s = (QueueSize N s, duration (m_dt_total s), GetDtAvg s)"

text \<open>
  \<open>k\<close> calls of \<open>Count\<close> without a custom measurement, one every \<open>step\<close> ticks,
  the first at \<open>step\<close>.
\<close>

definition tick_calls :: "VideoConfig \<Rightarrow> DT \<Rightarrow> nat \<Rightarrow> call list" where
  "tick_calls cfg step k = map (\<lambda>i. Call_Count cfg (step * (int i + 1)) None False) [0..<k]"

text \<open>
  A short run used to instantiate the theorems: two samples, the second with a
  custom measurement in continuous-duration mode, and a read of the standard
  deviation.
\<close>

definition sample_calls :: "call list" where
  "sample_calls =
     [Call_Count default_config 4000 None False,
      Call_Count default_config 9000 (Some 700) True,
      Call_GetDtStd]"

definition sample_tracker :: PerformanceTracker where
  "sample_tracker = the (run_calls 16384 sample_calls (Reset 0 zero_tracker))"

text \<open>
  The tracker after \<open>k\<close> calls of \<open>Count\<close>, one every \<open>step\<close> ticks, on the reset
  \<open>zero_tracker\<close>.
\<close>

definition tick_tracker :: "nat \<Rightarrow> VideoConfig \<Rightarrow> DT \<Rightarrow> nat \<Rightarrow> PerformanceTracker" where
  "tick_tracker N cfg step k = the (run_calls N (tick_calls cfg step k) (Reset 0 zero_tracker))"

text \<open>
  The value that a call of \<open>GetDtStd\<close> returns.
\<close>

definition GetDtStd_value :: "nat \<Rightarrow> PerformanceTracker \<Rightarrow> DT option" where
  "GetDtStd_value N s = map_option fst (GetDtStd N s)"

text \<open>
  Two samples, 4000 ticks apart, each with the custom measurement of -3000 ticks.
\<close>

definition negative_calls :: "call list" where
  "negative_calls =
     [Call_Count default_config 4000 (Some (- 3000)) False,
      Call_Count default_config 8000 (Some (- 3000)) False]"

section \<open>Index arithmetic of the ring buffer\<close>

lemma mod_below_twice: "x < 2 * N \<Longrightarrow> (x::nat) mod N = (if x < N then x else x - N)"
  by (simp add: mod_if le_mod_geq)

lemma GetDifference_less: "0 < N \<Longrightarrow> GetDifference N b e < N"
  by (simp add: GetDifference_def)

lemma GetDifference_cases:
  "b < N \<Longrightarrow> e < N \<Longrightarrow> GetDifference N b e = (if b \<le> e then e - b else e + N - b)"
  unfolding GetDifference_def by (subst mod_below_twice) auto

lemma GetDifference_zero_iff:
  "b < N \<Longrightarrow> e < N \<Longrightarrow> GetDifference N b e = 0 \<longleftrightarrow> b = e"
  by (auto simp add: GetDifference_cases)

lemma IncrementIndex_less: "0 < N \<Longrightarrow> IncrementIndex N i < N"
  by (simp add: IncrementIndex_def)

lemma IncrementIndex_cases:
  "i < N \<Longrightarrow> IncrementIndex N i = (if i + 1 < N then i + 1 else 0)"
  unfolding IncrementIndex_def by (subst mod_below_twice) auto

lemma GetDifference_pop:
  "b < N \<Longrightarrow> e < N \<Longrightarrow> b \<noteq> e \<Longrightarrow>
   GetDifference N (IncrementIndex N b) e = GetDifference N b e - 1"
  by (auto simp add: GetDifference_cases IncrementIndex_cases)

lemma GetDifference_push:
  "b < N \<Longrightarrow> e < N \<Longrightarrow> IncrementIndex N e \<noteq> b \<Longrightarrow>
   GetDifference N b (IncrementIndex N e) = GetDifference N b e + 1"
  by (auto simp add: GetDifference_cases IncrementIndex_cases)

lemma GetDifference_full:
  "b < N \<Longrightarrow> e < N \<Longrightarrow> IncrementIndex N e = b \<longleftrightarrow> GetDifference N b e = N - 1"
  by (auto simp add: GetDifference_cases IncrementIndex_cases)

lemma index_at_size:
  "b < N \<Longrightarrow> e < N \<Longrightarrow> (b + GetDifference N b e) mod N = e"
  by (auto simp add: GetDifference_cases mod_below_twice)

lemma index_distinct:
  assumes "(b::nat) < N" "j < N" "k < j"
  shows "(b + k) mod N \<noteq> (b + j) mod N"
proof -
  have "(b + k) mod N = (if b + k < N then b + k else b + k - N)"
    using assms by (intro mod_below_twice) simp
  moreover have "(b + j) mod N = (if b + j < N then b + j else b + j - N)"
    using assms by (intro mod_below_twice) simp
  ultimately show ?thesis using assms by (auto split: if_splits)
qed

lemma index_shift:
  "b < N \<Longrightarrow> (IncrementIndex N b + k) mod N = (b + Suc k) mod N"
  unfolding IncrementIndex_def by (simp add: mod_add_left_eq)


section \<open>The window as a list\<close>

lemma QueueList_ring:
  "QueueList N s = ring_list N (m_dt_queue s) (m_dt_queue_begin s) (QueueSize N s)"
  by (simp add: QueueList_def QueueIndices_def ring_list_def)

lemma ring_list_length [simp]: "length (ring_list N q b n) = n"
  by (simp add: ring_list_def)

lemma ring_list_Suc:
  "ring_list N q b (Suc n) = q (b mod N) # ring_list N q (IncrementIndex N b) n"
proof -
  have "[0..<Suc n] = 0 # map Suc [0..<n]"
    by (simp add: upt_conv_Cons map_Suc_upt del: upt_Suc)
  then show ?thesis
    by (simp add: ring_list_def IncrementIndex_def mod_add_left_eq comp_def del: upt_Suc)
qed

lemma ring_list_snoc:
  assumes "b < N" "n < N"
  shows "ring_list N (q((b + n) mod N := x)) b (Suc n) = ring_list N q b n @ [x]"
proof -
  have "\<And>k. k < n \<Longrightarrow> (b + k) mod N \<noteq> (b + n) mod N"
    using assms index_distinct by blast
  then show ?thesis by (simp add: ring_list_def)
qed

lemma QueueList_length: "length (QueueList N s) = QueueSize N s"
  by (simp add: QueueList_ring)

lemma pop_total_fields:
  "pop_total N s =
     s\<lparr>m_dt_queue_begin := IncrementIndex N (m_dt_queue_begin s),
       m_dt_total := pair_sub (m_dt_total s) (QueueTop s)\<rparr>"
  by (simp add: pop_total_def QueuePop_def QueueTop_def Let_def)

lemma pair_sum_Nil [simp]: "pair_sum [] = \<lparr>duration = 0, measurement = 0\<rparr>"
  by (simp add: pair_sum_def)

lemma pair_sum_snoc: "pair_sum (xs @ [x]) = pair_add (pair_sum xs) x"
  by (simp add: pair_sum_def pair_add_def)

lemma pair_sum_Cons: "pair_sub (pair_sum (x # xs)) x = pair_sum xs"
  by (simp add: pair_sum_def pair_sub_def)

lemma QueueSize_pop:
  assumes "m_dt_queue_begin s < N" "m_dt_queue_end s < N" "0 < QueueSize N s"
  shows "QueueSize N (pop_total N s) = QueueSize N s - 1"
proof -
  have "m_dt_queue_begin s \<noteq> m_dt_queue_end s"
    using assms GetDifference_zero_iff [of "m_dt_queue_begin s" N "m_dt_queue_end s"]
    by (auto simp add: QueueSize_def)
  then show ?thesis
    using assms(1,2) by (simp add: pop_total_fields QueueSize_def GetDifference_pop)
qed

lemma QueueList_pop:
  assumes "m_dt_queue_begin s < N" "m_dt_queue_end s < N" "0 < QueueSize N s"
  shows "QueueList N s = QueueTop s # QueueList N (pop_total N s)"
proof -
  obtain n where n: "QueueSize N s = Suc n"
    using assms(3) by (cases "QueueSize N s") auto
  have "QueueSize N (pop_total N s) = n"
    using QueueSize_pop [OF assms] n by simp
  moreover have "m_dt_queue_begin s mod N = m_dt_queue_begin s"
    using assms(1) by simp
  ultimately show ?thesis
    by (simp add: QueueList_ring n ring_list_Suc QueueTop_def pop_total_fields)
qed

lemma tracker_inv_pop:
  assumes "tracker_inv N s" "0 < QueueSize N s"
  shows "tracker_inv N (pop_total N s)"
proof -
  have b: "m_dt_queue_begin s < N" and e: "m_dt_queue_end s < N"
    and t: "m_dt_total s = pair_sum (QueueList N s)"
    using assms(1) by (simp_all add: tracker_inv_def)
  have l: "QueueList N s = QueueTop s # QueueList N (pop_total N s)"
    using QueueList_pop [OF b e assms(2)] .
  have "pair_sub (m_dt_total s) (QueueTop s) = pair_sum (QueueList N (pop_total N s))"
    using t l pair_sum_Cons by metis
  moreover have "m_dt_total (pop_total N s) = pair_sub (m_dt_total s) (QueueTop s)"
    by (simp add: pop_total_fields)
  moreover have "m_dt_queue_begin (pop_total N s) < N"
    using b by (simp add: pop_total_fields IncrementIndex_less)
  moreover have "m_dt_queue_end (pop_total N s) < N"
    using e by (simp add: pop_total_fields)
  ultimately show ?thesis by (simp add: tracker_inv_def)
qed

lemma QueuePush_list:
  assumes "m_dt_queue_begin s < N" "m_dt_queue_end s < N"
  shows "ring_list N (m_dt_queue (QueuePush N dt s)) (m_dt_queue_begin s) (Suc (QueueSize N s))
         = QueueList N s @ [dt]"
proof -
  have "(m_dt_queue_begin s + QueueSize N s) mod N = m_dt_queue_end s"
    using assms by (simp add: QueueSize_def index_at_size)
  moreover have "QueueSize N s < N"
    using assms by (simp add: QueueSize_def GetDifference_less)
  ultimately show ?thesis
    using ring_list_snoc [OF assms(1), of "QueueSize N s" "m_dt_queue s" dt]
    by (simp add: QueuePush_def QueueList_ring)
qed

lemma Count_push_nowrap:
  assumes "tracker_inv N s" "QueueSize N s \<noteq> N - 1"
  shows "QueueList N (Count_push N now dt s) = QueueList N s @ [dt]"
    and "tracker_inv N (Count_push N now dt s)"
    and "QueueSize N (Count_push N now dt s) = Suc (QueueSize N s)"
proof -
  have b: "m_dt_queue_begin s < N" and e: "m_dt_queue_end s < N"
    and t: "m_dt_total s = pair_sum (QueueList N s)"
    using assms(1) by (simp_all add: tracker_inv_def)
  let ?s1 = "s\<lparr>m_last_time := now\<rparr>"
  let ?s2 = "QueuePush N dt ?s1"
  let ?s3 = "?s2\<lparr>m_dt_total := pair_add (m_dt_total ?s2) dt\<rparr>"
  have ne: "IncrementIndex N (m_dt_queue_end s) \<noteq> m_dt_queue_begin s"
    using assms(2) b e by (simp add: GetDifference_full QueueSize_def)
  then have cp: "Count_push N now dt s = ?s3"
    by (auto simp add: Count_push_def Let_def QueuePush_def)
  have sz: "QueueSize N ?s3 = Suc (QueueSize N s)"
    using b e ne by (simp add: QueueSize_def QueuePush_def GetDifference_push)
  have "QueueList N ?s3 = ring_list N (m_dt_queue (QueuePush N dt ?s1)) (m_dt_queue_begin ?s1) (Suc (QueueSize N ?s1))"
    using sz by (simp add: QueueList_ring QueuePush_def QueueSize_def)
  also have "\<dots> = QueueList N ?s1 @ [dt]"
    using b e by (intro QueuePush_list) simp_all
  also have "QueueList N ?s1 = QueueList N s"
    by (simp add: QueueList_ring QueueSize_def)
  finally have l: "QueueList N ?s3 = QueueList N s @ [dt]" .
  show "QueueList N (Count_push N now dt s) = QueueList N s @ [dt]"
    using cp l by simp
  show "QueueSize N (Count_push N now dt s) = Suc (QueueSize N s)"
    using cp sz by simp
  have "m_dt_total ?s3 = pair_sum (QueueList N ?s3)"
    using l t by (simp add: pair_sum_snoc QueuePush_def)
  moreover have "m_dt_queue_begin ?s3 < N" "m_dt_queue_end ?s3 < N"
    using b e by (simp_all add: QueuePush_def IncrementIndex_less)
  ultimately show "tracker_inv N (Count_push N now dt s)"
    unfolding cp tracker_inv_def by blast
qed

lemma Count_push_wrap:
  assumes "tracker_inv N s" "QueueSize N s = N - 1" "2 \<le> N"
  shows "QueueList N (Count_push N now dt s) = tl (QueueList N s @ [dt])"
    and "tracker_inv N (Count_push N now dt s)"
    and "QueueSize N (Count_push N now dt s) = N - 1"
proof -
  have b: "m_dt_queue_begin s < N" and e: "m_dt_queue_end s < N"
    and t: "m_dt_total s = pair_sum (QueueList N s)"
    using assms(1) by (simp_all add: tracker_inv_def)
  let ?s1 = "s\<lparr>m_last_time := now\<rparr>"
  let ?s2 = "QueuePush N dt ?s1"
  let ?s3 = "?s2\<lparr>m_dt_total := pair_add (m_dt_total ?s2) dt\<rparr>"
  have full: "IncrementIndex N (m_dt_queue_end s) = m_dt_queue_begin s"
    using assms(2) b e by (simp add: GetDifference_full QueueSize_def)
  then have cp: "Count_push N now dt s = pop_total N ?s3"
    by (simp add: Count_push_def Let_def QueuePush_def)
  have sz: "QueueSize N (pop_total N ?s3) = N - 1"
    using b assms(3) full
    by (auto simp add: pop_total_fields QueueSize_def QueuePush_def GetDifference_cases
        IncrementIndex_cases split: if_splits)
  have "ring_list N (m_dt_queue ?s2) (m_dt_queue_begin ?s1) (Suc (QueueSize N ?s1))
        = QueueList N ?s1 @ [dt]"
    using b e by (intro QueuePush_list) simp_all
  moreover have "QueueList N ?s1 = QueueList N s" "QueueSize N ?s1 = QueueSize N s"
    by (simp_all add: QueueList_ring QueueSize_def)
  moreover have "ring_list N (m_dt_queue ?s2) (m_dt_queue_begin ?s1) (Suc (N - 1))
        = QueueTop ?s3 # QueueList N (pop_total N ?s3)"
  proof -
    have "QueueTop ?s3 = m_dt_queue ?s2 (m_dt_queue_begin s mod N)"
      using b by (simp add: QueueTop_def QueuePush_def)
    moreover have "QueueList N (pop_total N ?s3)
        = ring_list N (m_dt_queue ?s2) (IncrementIndex N (m_dt_queue_begin s)) (N - 1)"
      by (subst QueueList_ring, subst sz) (simp add: pop_total_fields QueuePush_def)
    moreover have "m_dt_queue_begin ?s1 = m_dt_queue_begin s" by simp
    ultimately show ?thesis by (simp only: ring_list_Suc)
  qed
  ultimately have l: "QueueList N s @ [dt] = QueueTop ?s3 # QueueList N (pop_total N ?s3)"
    using assms(2) by simp
  show "QueueList N (Count_push N now dt s) = tl (QueueList N s @ [dt])"
    using cp l by simp
  show "QueueSize N (Count_push N now dt s) = N - 1"
    using cp sz by simp
  have "m_dt_total ?s3 = pair_sum (QueueList N s @ [dt])"
    using t by (simp add: pair_sum_snoc QueuePush_def)
  then have "m_dt_total (pop_total N ?s3) = pair_sum (QueueList N (pop_total N ?s3))"
    using l pair_sum_Cons [of "QueueTop ?s3" "QueueList N (pop_total N ?s3)"]
    by (simp add: pop_total_fields)
  moreover have "m_dt_queue_begin (pop_total N ?s3) < N" "m_dt_queue_end (pop_total N ?s3) < N"
    using b e by (simp_all add: pop_total_fields QueuePush_def IncrementIndex_less)
  ultimately show "tracker_inv N (Count_push N now dt s)"
    unfolding cp tracker_inv_def by blast
qed

lemma evict_spec:
  assumes w: "0 < w"
  shows "tracker_inv N s \<Longrightarrow> QueueSize N s = Suc n \<Longrightarrow>
         \<exists>b t. evict N w s = Some (s\<lparr>m_dt_queue_begin := b, m_dt_total := t\<rparr>)
              \<and> tracker_inv N (s\<lparr>m_dt_queue_begin := b, m_dt_total := t\<rparr>)
              \<and> QueueList N (s\<lparr>m_dt_queue_begin := b, m_dt_total := t\<rparr>) = evict_list w (QueueList N s)
              \<and> 0 < QueueSize N (s\<lparr>m_dt_queue_begin := b, m_dt_total := t\<rparr>)"
proof (induction n arbitrary: s)
  case 0
  have b: "m_dt_queue_begin s < N" and e: "m_dt_queue_end s < N"
    and t: "m_dt_total s = pair_sum (QueueList N s)"
    using 0(1) by (simp_all add: tracker_inv_def)
  have l: "QueueList N s = QueueTop s # QueueList N (pop_total N s)"
    using QueueList_pop [OF b e] 0(2) by simp
  have "length (QueueList N s) = 1" using 0(2) by (simp add: QueueList_length)
  then have l1: "QueueList N s = [QueueTop s]" using l by (cases "QueueList N s") auto
  then have "duration (m_dt_total s) - duration (QueueTop s) = 0"
    using t by (simp add: pair_sum_def)
  then have "evict N w s = Some s" using w by (subst evict.simps) simp
  moreover have "evict_list w (QueueList N s) = QueueList N s" using l1 w by simp
  moreover have "s\<lparr>m_dt_queue_begin := m_dt_queue_begin s, m_dt_total := m_dt_total s\<rparr> = s" by simp
  ultimately show ?case using 0 by (metis zero_less_Suc)
next
  case (Suc n)
  have b: "m_dt_queue_begin s < N" and e: "m_dt_queue_end s < N"
    and t: "m_dt_total s = pair_sum (QueueList N s)"
    using Suc.prems(1) by (simp_all add: tracker_inv_def)
  have l: "QueueList N s = QueueTop s # QueueList N (pop_total N s)"
    using QueueList_pop [OF b e] Suc.prems(2) by simp
  have d: "duration (m_dt_total s) = sum_list (map duration (QueueList N s))"
    using t by (simp add: pair_sum_def)
  show ?case
  proof (cases "w \<le> duration (m_dt_total s) - duration (QueueTop s)")
    case False
    then have "evict N w s = Some s" by (subst evict.simps) simp
    moreover have "evict_list w (QueueList N s) = QueueList N s"
      using False d by (subst l, subst evict_list.simps) (simp add: l [symmetric])
    moreover have "s\<lparr>m_dt_queue_begin := m_dt_queue_begin s, m_dt_total := m_dt_total s\<rparr> = s" by simp
    ultimately show ?thesis using Suc.prems by (metis zero_less_Suc)
  next
    case True
    let ?p = "pop_total N s"
    have ev: "evict N w s = evict N w ?p" using True by (subst evict.simps) simp
    have el: "evict_list w (QueueList N s) = evict_list w (QueueList N ?p)"
      using True d by (subst l, subst evict_list.simps) (simp add: l [symmetric])
    have "tracker_inv N ?p" using tracker_inv_pop Suc.prems by simp
    moreover have "QueueSize N ?p = Suc n"
      using QueueSize_pop [OF b e] Suc.prems(2) by simp
    ultimately obtain b' t' where
      r: "evict N w ?p = Some (?p\<lparr>m_dt_queue_begin := b', m_dt_total := t'\<rparr>)"
         "tracker_inv N (?p\<lparr>m_dt_queue_begin := b', m_dt_total := t'\<rparr>)"
         "QueueList N (?p\<lparr>m_dt_queue_begin := b', m_dt_total := t'\<rparr>) = evict_list w (QueueList N ?p)"
         "0 < QueueSize N (?p\<lparr>m_dt_queue_begin := b', m_dt_total := t'\<rparr>)"
      using Suc.IH by blast
    have "?p\<lparr>m_dt_queue_begin := b', m_dt_total := t'\<rparr> = s\<lparr>m_dt_queue_begin := b', m_dt_total := t'\<rparr>"
      by (simp add: pop_total_fields)
    then show ?thesis using r ev el by metis
  qed
qed

text \<open>
  With a window length that is not positive the loop pops the only sample of a
  window and goes on with an empty window.
\<close>

lemma evict_nonpositive_window:
  assumes "tracker_inv N s" "QueueSize N s = 1" "w \<le> 0"
  shows "evict N w s = evict N w (pop_total N s)"
    and "QueueSize N (pop_total N s) = 0"
proof -
  have b: "m_dt_queue_begin s < N" and e: "m_dt_queue_end s < N"
    and t: "m_dt_total s = pair_sum (QueueList N s)"
    using assms(1) by (simp_all add: tracker_inv_def)
  have l: "QueueList N s = QueueTop s # QueueList N (pop_total N s)"
    using QueueList_pop [OF b e] assms(2) by simp
  show z: "QueueSize N (pop_total N s) = 0"
    using QueueSize_pop [OF b e] assms(2) by simp
  then have "QueueList N (pop_total N s) = []"
    using QueueList_length [of N "pop_total N s"] by simp
  then have "duration (m_dt_total s) - duration (QueueTop s) = 0"
    using t l by (simp add: pair_sum_def)
  then show "evict N w s = evict N w (pop_total N s)"
    using assms(3) by (subst evict.simps) simp
qed

section \<open>Ingestion keeps the tracker well formed\<close>

lemma window_positive_GetSampleWindow: "window_positive s \<Longrightarrow> 0 < GetSampleWindow cfg s"
  by (auto simp add: window_positive_def GetSampleWindow_def split: option.splits)

lemma Count_stats_fields:
  "m_dt_queue (Count_stats N cfg w dp s) = m_dt_queue s"
  "m_dt_queue_begin (Count_stats N cfg w dp s) = m_dt_queue_begin s"
  "m_dt_queue_end (Count_stats N cfg w dp s) = m_dt_queue_end s"
  "m_dt_total (Count_stats N cfg w dp s) = m_dt_total s"
  "m_paused (Count_stats N cfg w dp s) = m_paused s"
  "m_last_time (Count_stats N cfg w dp s) = m_last_time s"
  "m_sample_window_us (Count_stats N cfg w dp s) = m_sample_window_us s"
  "m_dt_std (Count_stats N cfg w dp s) = None"
  "m_dt_avg (Count_stats N cfg w dp s) = DT_div (measurement (m_dt_total s)) (QueueSize N s)"
  by (simp_all add: Count_stats_def Let_def LogRenderTimeToFile_def)

lemma Count_stats_hz_avg:
  "m_hz_avg (Count_stats N cfg w dp s) =
     (if isfinite (m_hz_avg s)
      then dplus (m_hz_avg s) (dtimes (Count_a w dp) (dminus (Count_hz N s) (m_hz_avg s)))
      else Count_hz N s)"
  by (simp add: Count_stats_def Let_def LogRenderTimeToFile_def Count_hz_def QueueSize_def)

lemma window_cong:
  assumes "m_dt_queue s' = m_dt_queue s" "m_dt_queue_begin s' = m_dt_queue_begin s"
    "m_dt_queue_end s' = m_dt_queue_end s"
  shows "QueueSize N s' = QueueSize N s" and "QueueList N s' = QueueList N s"
    and "QueueIndices N s' = QueueIndices N s"
    and "QueueEmpty s' = QueueEmpty s" and "QueueTop s' = QueueTop s"
  unfolding QueueSize_def QueueList_def QueueIndices_def QueueEmpty_def QueueTop_def
  by (simp_all only: assms)

lemma tracker_inv_cong:
  assumes "m_dt_queue s' = m_dt_queue s" "m_dt_queue_begin s' = m_dt_queue_begin s"
    "m_dt_queue_end s' = m_dt_queue_end s" "m_dt_total s' = m_dt_total s"
  shows "tracker_inv N s' = tracker_inv N s"
  unfolding tracker_inv_def by (simp only: assms window_cong(2) [OF assms(1-3)])

lemma Count_stats_window:
  "QueueSize N (Count_stats N cfg w dp s) = QueueSize N s"
  "QueueList N (Count_stats N cfg w dp s) = QueueList N s"
  "QueueEmpty (Count_stats N cfg w dp s) = QueueEmpty s"
  "QueueTop (Count_stats N cfg w dp s) = QueueTop s"
  "tracker_inv N (Count_stats N cfg w dp s) = tracker_inv N s"
  by (rule window_cong tracker_inv_cong; simp add: Count_stats_fields)+

lemma Count_push_fields:
  "m_paused (Count_push N now dp s) = m_paused s"
  "m_sample_window_us (Count_push N now dp s) = m_sample_window_us s"
  "m_hz_avg (Count_push N now dp s) = m_hz_avg s"
  "m_last_time (Count_push N now dp s) = now"
  by (simp_all add: Count_push_def Let_def QueuePush_def pop_total_fields)

lemma Count_push_list:
  assumes "2 \<le> N" "tracker_inv N s"
  shows "tracker_inv N (Count_push N now dp s)"
    and "QueueList N (Count_push N now dp s) =
           (if QueueSize N s = N - 1 then tl (QueueList N s @ [dp]) else QueueList N s @ [dp])"
    and "0 < QueueSize N (Count_push N now dp s)"
  using assms Count_push_wrap [of N s now dp] Count_push_nowrap [of N s now dp]
  by (cases "QueueSize N s = N - 1"; simp)+

lemma QueueEmpty_size:
  "tracker_inv N s \<Longrightarrow> QueueEmpty s \<longleftrightarrow> QueueSize N s = 0"
  by (simp add: tracker_inv_def QueueEmpty_def QueueSize_def GetDifference_zero_iff)

lemma Count_result:
  assumes "2 \<le> N" "tracker_inv N s" "window_positive s" "\<not> m_paused s"
  shows "\<exists>b t. Count N cfg now cm cont s =
             Some (Count_stats N cfg (GetSampleWindow cfg s) (Count_data_point now cm cont s)
                    ((Count_push N now (Count_data_point now cm cont s) s)
                       \<lparr>m_dt_queue_begin := b, m_dt_total := t\<rparr>))
           \<and> tracker_inv N ((Count_push N now (Count_data_point now cm cont s) s)
                       \<lparr>m_dt_queue_begin := b, m_dt_total := t\<rparr>)
           \<and> QueueList N ((Count_push N now (Count_data_point now cm cont s) s)
                       \<lparr>m_dt_queue_begin := b, m_dt_total := t\<rparr>)
               = evict_list (GetSampleWindow cfg s)
                   (QueueList N (Count_push N now (Count_data_point now cm cont s) s))
           \<and> 0 < QueueSize N ((Count_push N now (Count_data_point now cm cont s) s)
                       \<lparr>m_dt_queue_begin := b, m_dt_total := t\<rparr>)"
proof -
  let ?dp = "Count_data_point now cm cont s"
  let ?p = "Count_push N now ?dp s"
  have w: "0 < GetSampleWindow cfg s"
    using assms(3) by (rule window_positive_GetSampleWindow)
  have "tracker_inv N ?p" and "0 < QueueSize N ?p"
    using Count_push_list [OF assms(1,2)] by simp_all
  then obtain n where "QueueSize N ?p = Suc n" by (cases "QueueSize N ?p") auto
  from evict_spec [OF w \<open>tracker_inv N ?p\<close> this]
  obtain b t where r: "evict N (GetSampleWindow cfg s) ?p = Some (?p\<lparr>m_dt_queue_begin := b, m_dt_total := t\<rparr>)"
    "tracker_inv N (?p\<lparr>m_dt_queue_begin := b, m_dt_total := t\<rparr>)"
    "QueueList N (?p\<lparr>m_dt_queue_begin := b, m_dt_total := t\<rparr>) = evict_list (GetSampleWindow cfg s) (QueueList N ?p)"
    "0 < QueueSize N (?p\<lparr>m_dt_queue_begin := b, m_dt_total := t\<rparr>)"
    by blast
  have "Count N cfg now cm cont s =
          Some (Count_stats N cfg (GetSampleWindow cfg s) ?dp (?p\<lparr>m_dt_queue_begin := b, m_dt_total := t\<rparr>))"
    using assms(4) r(1,4) by (simp add: Count_def Let_def)
  then show ?thesis using r(2-4) by blast
qed

lemma Count_ok:
  assumes "2 \<le> N" "tracker_ok N s"
  shows "\<exists>s'. Count N cfg now cm cont s = Some s' \<and> tracker_ok N s'"
proof (cases "m_paused s")
  case True
  then show ?thesis using assms(2) by (simp add: Count_def)
next
  case False
  have i: "tracker_inv N s" and wp: "window_positive s"
    using assms(2) by (simp_all add: tracker_ok_def)
  let ?dp = "Count_data_point now cm cont s"
  let ?p = "Count_push N now ?dp s"
  from Count_result [OF assms(1) i wp False, of cfg now cm cont]
  obtain b t where r:
    "Count N cfg now cm cont s = Some (Count_stats N cfg (GetSampleWindow cfg s) ?dp (?p\<lparr>m_dt_queue_begin := b, m_dt_total := t\<rparr>))"
    "tracker_inv N (?p\<lparr>m_dt_queue_begin := b, m_dt_total := t\<rparr>)"
    "0 < QueueSize N (?p\<lparr>m_dt_queue_begin := b, m_dt_total := t\<rparr>)"
    by blast
  let ?s1 = "?p\<lparr>m_dt_queue_begin := b, m_dt_total := t\<rparr>"
  let ?s' = "Count_stats N cfg (GetSampleWindow cfg s) ?dp ?s1"
  have t': "tracker_inv N ?s'" using r(2) by (simp add: Count_stats_window)
  have "\<not> QueueEmpty ?s'"
    using r(3) QueueEmpty_size [OF t'] by (simp add: Count_stats_window)
  then have "stats_inv N ?s'"
    by (simp add: stats_inv_def Count_stats_fields Count_stats_window)
  moreover have "window_positive ?s'"
    using wp by (simp add: window_positive_def Count_stats_fields Count_push_fields)
  ultimately show ?thesis using r(1) t' by (simp add: tracker_ok_def)
qed

lemma Reset_ok:
  assumes "0 < N" "window_positive s"
  shows "tracker_ok N (Reset now s)"
proof -
  have "QueueSize N (Reset now s) = 0"
    using assms(1) by (simp add: QueueSize_def Reset_def QueueClear_def GetDifference_def)
  then have "QueueList N (Reset now s) = []"
    by (simp add: QueueList_def QueueIndices_def)
  then have "tracker_inv N (Reset now s)"
    using assms(1) by (simp add: tracker_inv_def) (simp add: Reset_def QueueClear_def)
  moreover have "stats_inv N (Reset now s)"
    by (simp add: stats_inv_def QueueEmpty_def Reset_def QueueClear_def)
  moreover have "window_positive (Reset now s)"
    using assms(2) by (simp add: window_positive_def Reset_def QueueClear_def)
  ultimately show ?thesis by (simp add: tracker_ok_def)
qed

lemma window_stddev_cong:
  assumes "m_dt_queue s' = m_dt_queue s" "m_dt_queue_begin s' = m_dt_queue_begin s"
    "m_dt_queue_end s' = m_dt_queue_end s" "m_dt_avg s' = m_dt_avg s"
  shows "window_stddev N s' = window_stddev N s"
  unfolding window_stddev_def
  by (simp only: assms window_cong [OF assms(1-3)])

lemma stats_inv_cong:
  assumes "m_dt_queue s' = m_dt_queue s" "m_dt_queue_begin s' = m_dt_queue_begin s"
    "m_dt_queue_end s' = m_dt_queue_end s" "m_dt_avg s' = m_dt_avg s"
    "m_dt_total s' = m_dt_total s" "m_dt_std s' = m_dt_std s"
  shows "stats_inv N s' = stats_inv N s"
  unfolding stats_inv_def
  by (simp only: assms window_cong [OF assms(1-3)] window_stddev_cong [OF assms(1-4)])

lemma SetPaused_ok: "tracker_ok N s \<Longrightarrow> tracker_ok N (SetPaused paused now s)"
proof -
  assume a: "tracker_ok N s"
  have "tracker_inv N (SetPaused paused now s) = tracker_inv N s"
    by (rule tracker_inv_cong) (simp_all add: SetPaused_def Let_def)
  moreover have "stats_inv N (SetPaused paused now s) = stats_inv N s"
    by (rule stats_inv_cong) (simp_all add: SetPaused_def Let_def)
  moreover have "window_positive (SetPaused paused now s) = window_positive s"
    by (simp add: window_positive_def SetPaused_def Let_def)
  ultimately show ?thesis using a by (simp add: tracker_ok_def)
qed

lemma foldl_squares:
  "foldl (\<lambda>total i. total + f i) z xs = z + sum_list (map f xs)"
  for z :: real
  by (induction xs arbitrary: z) simp_all

lemma GetDtStd_loop_from:
  assumes "b < N" "n < N" "(b + n) mod N = m_dt_queue_end s"
  shows "k \<le> n \<Longrightarrow>
         GetDtStd_loop N s ((b + k) mod N) t =
           Some (t + (\<Sum>j\<leftarrow>[k..<n].
                   (real_of_int (measurement (m_dt_queue s ((b + j) mod N)) - m_dt_avg s) / 10 ^ 9)
                   * (real_of_int (measurement (m_dt_queue s ((b + j) mod N)) - m_dt_avg s) / 10 ^ 9)))"
proof (induction "n - k" arbitrary: k t)
  case 0
  then have "k = n" by simp
  then show ?case using assms(3) by (subst GetDtStd_loop.simps) simp
next
  case (Suc d)
  then have k: "k < n" by simp
  then have "(b + k) mod N \<noteq> m_dt_queue_end s"
    using index_distinct [OF assms(1,2) k] assms(3) by simp
  moreover have "IncrementIndex N ((b + k) mod N) = (b + Suc k) mod N"
    by (simp add: IncrementIndex_def mod_Suc_eq)
  moreover have "[k..<n] = k # [Suc k..<n]" using k by (simp add: upt_conv_Cons)
  moreover have "d = n - Suc k" "Suc k \<le> n" using Suc.hyps(2) k by simp_all
  ultimately show ?case
    using Suc.hyps(1) [of "Suc k"] by (subst GetDtStd_loop.simps) (simp add: add.assoc)
qed

lemma GetDtStd_loop_window:
  assumes "tracker_inv N s"
  shows "\<exists>total. GetDtStd_loop N s (m_dt_queue_begin s) 0 = Some total
           \<and> DT_of_seconds (sqrt (total / real (QueueSize N s))) = window_stddev N s"
proof -
  have b: "m_dt_queue_begin s < N" and e: "m_dt_queue_end s < N"
    using assms by (simp_all add: tracker_inv_def)
  have n: "QueueSize N s < N" using b by (simp add: QueueSize_def GetDifference_less)
  have i: "(m_dt_queue_begin s + QueueSize N s) mod N = m_dt_queue_end s"
    using b e by (simp add: QueueSize_def index_at_size)
  let ?f = "\<lambda>j. (real_of_int (measurement (m_dt_queue s ((m_dt_queue_begin s + j) mod N)) - m_dt_avg s) / 10 ^ 9)
                 * (real_of_int (measurement (m_dt_queue s ((m_dt_queue_begin s + j) mod N)) - m_dt_avg s) / 10 ^ 9)"
  have "GetDtStd_loop N s ((m_dt_queue_begin s + 0) mod N) 0 = Some (0 + sum_list (map ?f [0..<QueueSize N s]))"
    using GetDtStd_loop_from [OF b n i, of 0 0] by simp
  then have l: "GetDtStd_loop N s (m_dt_queue_begin s) 0 = Some (sum_list (map ?f [0..<QueueSize N s]))"
    using b by simp
  have "sum_list (map ?f [0..<QueueSize N s]) =
      (\<Sum>x\<leftarrow>map (\<lambda>x. real_of_int (measurement x) / 10 ^ 9) (QueueList N s).
          (x - real_of_int (m_dt_avg s) / 10 ^ 9) * (x - real_of_int (m_dt_avg s) / 10 ^ 9))"
    by (simp add: QueueList_def QueueIndices_def comp_def diff_divide_distrib)
  then have "DT_of_seconds (sqrt (sum_list (map ?f [0..<QueueSize N s]) / real (QueueSize N s)))
             = window_stddev N s"
    by (simp add: window_stddev_def population_stddev_def QueueList_length)
  then show ?thesis using l by blast
qed

lemma GetDtStd_result:
  assumes "tracker_inv N s" "stats_inv N s"
  shows "GetDtStd N s =
           Some (if QueueEmpty s then 0 else window_stddev N s,
                 s\<lparr>m_dt_std := Some (if QueueEmpty s then 0 else window_stddev N s)\<rparr>)"
proof (cases "m_dt_std s")
  case None
  show ?thesis
  proof (cases "QueueEmpty s")
    case True
    then show ?thesis using None by (simp add: GetDtStd_def)
  next
    case False
    from GetDtStd_loop_window [OF assms(1)] obtain total where
      "GetDtStd_loop N s (m_dt_queue_begin s) 0 = Some total"
      "DT_of_seconds (sqrt (total / real (QueueSize N s))) = window_stddev N s"
      by blast
    then show ?thesis using None False by (simp add: GetDtStd_def Let_def)
  qed
next
  case (Some v)
  then have "v = (if QueueEmpty s then 0 else window_stddev N s)"
    using assms(2) by (auto simp add: stats_inv_def split: if_splits)
  moreover have "s\<lparr>m_dt_std := Some v\<rparr> = s" using Some by simp
  ultimately show ?thesis using Some by (simp add: GetDtStd_def)
qed

lemma GetDtStd_ok:
  assumes "tracker_ok N s"
  shows "tracker_ok N (s\<lparr>m_dt_std := Some (if QueueEmpty s then 0 else window_stddev N s)\<rparr>)"
proof -
  let ?s' = "s\<lparr>m_dt_std := Some (if QueueEmpty s then 0 else window_stddev N s)\<rparr>"
  have "tracker_inv N ?s' = tracker_inv N s"
    by (rule tracker_inv_cong) simp_all
  moreover have "stats_inv N ?s'"
  proof -
    have "\<And>x. window_stddev N (s\<lparr>m_dt_std := x\<rparr>) = window_stddev N s"
      by (rule window_stddev_cong) simp_all
    moreover have "\<And>x. QueueEmpty (s\<lparr>m_dt_std := x\<rparr>) = QueueEmpty s"
      "\<And>x. QueueSize N (s\<lparr>m_dt_std := x\<rparr>) = QueueSize N s"
      by (simp_all add: QueueEmpty_def QueueSize_def)
    moreover have "stats_inv N s" using assms by (simp add: tracker_ok_def)
    ultimately show ?thesis by (simp add: stats_inv_def)
  qed
  moreover have "window_positive ?s' = window_positive s"
    by (simp add: window_positive_def)
  ultimately show ?thesis using assms by (simp add: tracker_ok_def)
qed

lemma call_step_ok:
  assumes "2 \<le> N" "tracker_ok N s"
  shows "\<exists>s'. call_step N c s = Some s' \<and> tracker_ok N s'"
proof (cases c)
  case (Call_Count cfg now cm cont)
  then show ?thesis using Count_ok [OF assms] by simp
next
  case (Call_Reset now)
  then show ?thesis using assms Reset_ok [of N s now] by (simp add: tracker_ok_def)
next
  case (Call_SetPaused paused now)
  then show ?thesis using assms(2) SetPaused_ok by simp
next
  case Call_GetDtStd
  then show ?thesis
    using assms(2) GetDtStd_ok [OF assms(2)] GetDtStd_result [of N s]
    by (simp add: tracker_ok_def)
qed (use assms(2) in simp_all)

lemma run_calls_ok:
  assumes "2 \<le> N"
  shows "tracker_ok N s \<Longrightarrow> \<exists>s'. run_calls N cs s = Some s' \<and> tracker_ok N s'"
proof (induction cs arbitrary: s)
  case Nil
  then show ?case by simp
next
  case (Cons c cs)
  from call_step_ok [OF assms Cons.prems, of c]
  obtain s1 where "call_step N c s = Some s1" "tracker_ok N s1" by blast
  then show ?case using Cons.IH [of s1] by simp
qed

lemma evict_list_post:
  "evict_list w xs = y # ys \<Longrightarrow> sum_list (map duration (y # ys)) - duration y < w"
  by (induction xs) (auto split: if_splits)

lemma reachable_ok:
  assumes "2 \<le> N" "window_positive s0" "run_calls N calls (Reset t0 s0) = Some s"
  shows "tracker_ok N s"
  using run_calls_ok [OF assms(1) Reset_ok [of N s0 t0], of calls] assms by auto

lemma tracker_inv_top:
  assumes "tracker_inv N s" "0 < QueueSize N s"
  shows "duration (m_dt_total s) - duration (QueueTop s)
         = sum_list (map duration (QueueList N s)) - duration (hd (QueueList N s))"
proof -
  have "QueueList N s = QueueTop s # QueueList N (pop_total N s)"
    using assms by (intro QueueList_pop) (simp_all add: tracker_inv_def)
  then have "hd (QueueList N s) = QueueTop s" by simp
  moreover have "duration (m_dt_total s) = sum_list (map duration (QueueList N s))"
    using assms(1) by (simp add: tracker_inv_def pair_sum_def)
  ultimately show ?thesis by simp
qed

text \<open>The equations that evaluate a run on concrete inputs.\<close>

lemmas run_eval = Count_def Count_push_def Count_stats_def Count_data_point_def GetSampleWindow_def
  QueuePush_def QueuePop_def pop_total_def QueueTop_def QueueSize_def GetDifference_def IncrementIndex_def
  pair_add_def pair_sub_def Reset_def QueueClear_def PerformanceTracker_new_def zero_tracker_def
  LogRenderTimeToFile_def DT_div_def default_config_def Let_def evict.simps
  Count_hz_def Count_a_def DT_s_def dminus_def SAMPLE_RC_RATIO_def SetPaused_def GetDtStd_def
  GetDtStd_loop.simps QueueEmpty_def TimePoint_max_def

lemma zero_tracker_window: "window_positive zero_tracker"
  by (simp add: window_positive_def zero_tracker_def)

lemma sample_tracker_run:
  "run_calls 16384 sample_calls (Reset 0 zero_tracker) = Some sample_tracker"
  using run_calls_ok [of 16384 "Reset 0 zero_tracker" sample_calls]
    Reset_ok [of 16384 zero_tracker 0] zero_tracker_window
  by (auto simp add: sample_tracker_def)

lemma sample_tracker_fields:
  "m_paused sample_tracker = False"
  "m_last_time sample_tracker = 9000"
  "QueueSize 16384 sample_tracker = 2"
  "m_dt_total sample_tracker = \<lparr>duration = 4700, measurement = 4700\<rparr>"
  "m_sample_window_us sample_tracker = None"
  by (simp_all add: sample_tracker_def sample_calls_def run_eval)

lemma Count_hz_cong:
  assumes "m_dt_queue_begin s' = m_dt_queue_begin s" "m_dt_queue_end s' = m_dt_queue_end s"
    "m_dt_total s' = m_dt_total s"
  shows "Count_hz N s' = Count_hz N s"
  unfolding Count_hz_def QueueSize_def by (simp only: assms)

lemma Count_step:
  assumes "2 \<le> N" "tracker_ok N s" "\<not> m_paused s"
  shows "\<exists>s'. Count N cfg now cm cont s = Some s' \<and> tracker_ok N s'
           \<and> QueueList N s' =
               evict_list (GetSampleWindow cfg s)
                 (if QueueSize N s = N - 1
                  then tl (QueueList N s @ [Count_data_point now cm cont s])
                  else QueueList N s @ [Count_data_point now cm cont s])
           \<and> m_last_time s' = now \<and> \<not> m_paused s'
           \<and> m_sample_window_us s' = m_sample_window_us s
           \<and> m_dt_avg s' = DT_div (measurement (m_dt_total s')) (QueueSize N s')
           \<and> m_dt_std s' = None
           \<and> m_hz_avg s' =
               (if isfinite (m_hz_avg s)
                then dplus (m_hz_avg s)
                       (dtimes (Count_a (GetSampleWindow cfg s) (Count_data_point now cm cont s))
                          (dminus (Count_hz N s') (m_hz_avg s)))
                else Count_hz N s')"
proof -
  let ?dp = "Count_data_point now cm cont s"
  let ?w = "GetSampleWindow cfg s"
  have i: "tracker_inv N s" and wp: "window_positive s"
    using assms(2) by (simp_all add: tracker_ok_def)
  from Count_result [OF assms(1) i wp assms(3), of cfg now cm cont]
  obtain b t where r:
    "Count N cfg now cm cont s =
       Some (Count_stats N cfg ?w ?dp ((Count_push N now ?dp s)\<lparr>m_dt_queue_begin := b, m_dt_total := t\<rparr>))"
    "QueueList N ((Count_push N now ?dp s)\<lparr>m_dt_queue_begin := b, m_dt_total := t\<rparr>)
       = evict_list ?w (QueueList N (Count_push N now ?dp s))"
    by blast
  let ?s1 = "(Count_push N now ?dp s)\<lparr>m_dt_queue_begin := b, m_dt_total := t\<rparr>"
  let ?s' = "Count_stats N cfg ?w ?dp ?s1"
  from Count_ok [OF assms(1,2), of cfg now cm cont] r(1)
  have ok: "tracker_ok N ?s'" by simp
  have l: "QueueList N ?s' =
      evict_list ?w (if QueueSize N s = N - 1 then tl (QueueList N s @ [?dp]) else QueueList N s @ [?dp])"
    using r(2) Count_push_list(2) [OF assms(1) i, of now ?dp] by (simp add: Count_stats_window)
  have f: "m_last_time ?s' = now" "\<not> m_paused ?s'" "m_sample_window_us ?s' = m_sample_window_us s"
    "m_dt_std ?s' = None"
    using assms(3) by (simp_all add: Count_stats_fields Count_push_fields)
  have a: "m_dt_avg ?s' = DT_div (measurement (m_dt_total ?s')) (QueueSize N ?s')"
    by (simp add: Count_stats_fields Count_stats_window)
  have "Count_hz N ?s' = Count_hz N ?s1"
    by (rule Count_hz_cong) (simp_all add: Count_stats_fields)
  then have h: "m_hz_avg ?s' =
      (if isfinite (m_hz_avg s)
       then dplus (m_hz_avg s) (dtimes (Count_a ?w ?dp) (dminus (Count_hz N ?s') (m_hz_avg s)))
       else Count_hz N ?s')"
    by (simp add: Count_stats_hz_avg Count_push_fields)
  show ?thesis using r(1) ok l f a h by blast
qed

lemma new_tracker_ok:
  assumes "0 < N" "case w of None \<Rightarrow> True | Some v \<Rightarrow> 0 < v"
  shows "tracker_ok N (PerformanceTracker_new log_name w t0 mem)"
    and "QueueList N (PerformanceTracker_new log_name w t0 mem) = []"
    and "m_last_time (PerformanceTracker_new log_name w t0 mem) = t0"
    and "m_paused (PerformanceTracker_new log_name w t0 mem) = m_paused mem"
    and "m_sample_window_us (PerformanceTracker_new log_name w t0 mem) = w"
    and "m_hz_avg (PerformanceTracker_new log_name w t0 mem) = Finite 0"
proof -
  show "tracker_ok N (PerformanceTracker_new log_name w t0 mem)"
    unfolding PerformanceTracker_new_def using assms
    by (intro Reset_ok) (simp_all add: window_positive_def)
  have "QueueSize N (PerformanceTracker_new log_name w t0 mem) = 0"
    using assms(1)
    by (simp add: PerformanceTracker_new_def Reset_def QueueClear_def QueueSize_def GetDifference_def)
  then show "QueueList N (PerformanceTracker_new log_name w t0 mem) = []"
    by (simp add: QueueList_def QueueIndices_def)
qed (simp_all add: PerformanceTracker_new_def Reset_def QueueClear_def)

lemma tracker_ok_summary:
  assumes "tracker_ok N s" "QueueList N s = xs" "xs \<noteq> []"
  shows "QueueSize N s = length xs"
    and "m_dt_total s = pair_sum xs"
    and "m_dt_avg s = DT_div (measurement (pair_sum xs)) (length xs)"
proof -
  show sz: "QueueSize N s = length xs" using assms(2) QueueList_length [of N s] by simp
  show t: "m_dt_total s = pair_sum xs" using assms(1,2) by (simp add: tracker_ok_def tracker_inv_def)
  have "\<not> QueueEmpty s"
    using assms sz QueueEmpty_size [of N s] by (simp add: tracker_ok_def)
  then show "m_dt_avg s = DT_div (measurement (pair_sum xs)) (length xs)"
    using assms(1) sz t by (simp add: tracker_ok_def stats_inv_def)
qed

lemma Count_a_positive_window:
  assumes "0 < w"
  shows "Count_a w dp =
    Finite (1 - exp (- ((real_of_int (duration dp) / 10 ^ 9) / (33 / 100 * (real_of_int w / 10 ^ 9)))))"
  using assms by (simp add: Count_a_def Let_def DT_s_def dminus_def SAMPLE_RC_RATIO_def)

lemma Count_hz_value:
  assumes "0 < QueueSize N s"
  shows "Count_hz N s =
     (if measurement (m_dt_total s) = 0 then PInf
      else Finite (real (QueueSize N s) / (real_of_int (measurement (m_dt_total s)) / 10 ^ 9)))"
  using assms by (simp add: Count_hz_def DT_s_def)

lemma tracker_ok_nonempty:
  assumes "tracker_ok N s" "\<not> m_paused s0" "Count N cfg now cm cont s0 = Some s" "tracker_ok N s0" "2 \<le> N"
  shows "0 < QueueSize N s"
proof -
  have i: "tracker_inv N s0" and wp: "window_positive s0"
    using assms(4) by (simp_all add: tracker_ok_def)
  from Count_result [OF assms(5) i wp assms(2), of cfg now cm cont] assms(3)
  show ?thesis by (auto simp add: Count_stats_window)
qed

lemma reachable_Count_step:
  assumes "2 \<le> N" "window_positive s0" "run_calls N calls (Reset t0 s0) = Some s"
    "\<not> m_paused s"
  shows "\<exists>s'. Count N cfg now cm cont s = Some s' \<and> 0 < QueueSize N s' \<and> 0 < GetSampleWindow cfg s
           \<and> m_hz_avg s' =
               (if isfinite (m_hz_avg s)
                then dplus (m_hz_avg s)
                       (dtimes (Count_a (GetSampleWindow cfg s) (Count_data_point now cm cont s))
                          (dminus (Count_hz N s') (m_hz_avg s)))
                else Count_hz N s')"
proof -
  have ok: "tracker_ok N s" using reachable_ok [OF assms(1-3)] .
  from Count_step [OF assms(1) ok assms(4), of cfg now cm cont]
  obtain s' where s': "Count N cfg now cm cont s = Some s'" "tracker_ok N s'"
    "m_hz_avg s' =
       (if isfinite (m_hz_avg s)
        then dplus (m_hz_avg s)
               (dtimes (Count_a (GetSampleWindow cfg s) (Count_data_point now cm cont s))
                  (dminus (Count_hz N s') (m_hz_avg s)))
        else Count_hz N s')"
    by blast
  have "0 < QueueSize N s'"
    using tracker_ok_nonempty [OF s'(2) assms(4) s'(1) ok assms(1)] .
  moreover have "0 < GetSampleWindow cfg s"
    using ok by (simp add: tracker_ok_def window_positive_GetSampleWindow)
  ultimately show ?thesis using s'(1,3) by blast
qed



section \<open>Filling the ring buffer\<close>

lemma run_calls_append:
  "run_calls N (cs @ ds) s =
     (case run_calls N cs s of None \<Rightarrow> None | Some s' \<Rightarrow> run_calls N ds s')"
  by (induction cs arbitrary: s) (auto split: option.splits)

lemma tick_calls_Suc:
  "tick_calls cfg step (Suc k) =
     tick_calls cfg step k @ [Call_Count cfg (step * (int k + 1)) None False]"
  by (simp add: tick_calls_def)

lemma evict_list_keep:
  assumes "xs \<noteq> []" "sum_list (map duration xs) - duration (hd xs) < w"
  shows "evict_list w xs = xs"
  using assms by (cases xs) simp_all

lemma pair_sum_replicate:
  "pair_sum (replicate n x) =
     \<lparr>duration = int n * duration x, measurement = int n * measurement x\<rparr>"
  by (simp add: pair_sum_def sum_list_replicate)

lemma tick_run:
  assumes N: "2 \<le> N" and step: "0 < step"
    and w: "step * int N \<le> max 1 (iPerfSampleUSec cfg) * 1000"
    and s0: "tracker_ok N s0" "QueueList N s0 = []" "m_last_time s0 = 0" "\<not> m_paused s0"
      "m_sample_window_us s0 = None"
  shows "k \<le> N \<Longrightarrow>
         \<exists>s. run_calls N (tick_calls cfg step k) s0 = Some s \<and> tracker_ok N s
           \<and> QueueList N s = replicate (min k (N - 1)) \<lparr>duration = step, measurement = step\<rparr>
           \<and> m_last_time s = step * int k \<and> \<not> m_paused s \<and> m_sample_window_us s = None"
proof (induction k)
  case 0
  then show ?case using s0 by (simp add: tick_calls_def)
next
  case (Suc k)
  let ?dp = "\<lparr>duration = step, measurement = step\<rparr>"
  from Suc obtain s where s: "run_calls N (tick_calls cfg step k) s0 = Some s" "tracker_ok N s"
    "QueueList N s = replicate k ?dp" "m_last_time s = step * int k" "\<not> m_paused s"
    "m_sample_window_us s = None"
    by (auto simp add: min_def)
  have sz: "QueueSize N s = k" using s(3) QueueList_length [of N s] by simp
  have dp: "Count_data_point (step * (int k + 1)) None False s = ?dp"
    using s(4) by (simp add: Count_data_point_def Let_def algebra_simps)
  have gw: "GetSampleWindow cfg s = max 1 (iPerfSampleUSec cfg) * 1000"
    using s(6) by (simp add: GetSampleWindow_def)
  let ?xs = "replicate (min (Suc k) (N - 1)) ?dp"
  have pushed: "(if QueueSize N s = N - 1 then tl (QueueList N s @ [?dp]) else QueueList N s @ [?dp]) = ?xs"
  proof (cases "k = N - 1")
    case True
    have "replicate k ?dp @ [?dp] = replicate (Suc k) ?dp" by (simp add: replicate_append_same)
    then show ?thesis using True sz s(3) N by (simp add: min_def)
  next
    case False
    have "replicate k ?dp @ [?dp] = replicate (Suc k) ?dp" by (simp add: replicate_append_same)
    then show ?thesis using False sz s(3) Suc.prems by (simp add: min_def)
  qed
  have ne: "?xs \<noteq> []" using N by (simp add: min_def)
  have "int (min (Suc k) (N - 1)) * step - step < step * int N"
  proof -
    have "int (min (Suc k) (N - 1)) \<le> int N" by simp
    then have "int (min (Suc k) (N - 1)) * step \<le> int N * step"
      using step by (intro mult_right_mono) simp_all
    moreover have "int N * step = step * int N" by simp
    ultimately have "int (min (Suc k) (N - 1)) * step \<le> step * int N" by simp
    then show ?thesis using step by linarith
  qed
  then have "sum_list (map duration ?xs) - duration (hd ?xs) < GetSampleWindow cfg s"
    using w gw ne by (simp add: sum_list_replicate)
  then have keep: "evict_list (GetSampleWindow cfg s) ?xs = ?xs"
    using ne by (intro evict_list_keep) simp_all
  from Count_step [OF N s(2) s(5), of cfg "step * (int k + 1)" None False]
  obtain s' where s': "Count N cfg (step * (int k + 1)) None False s = Some s'" "tracker_ok N s'"
    "QueueList N s' = ?xs" "m_last_time s' = step * (int k + 1)" "\<not> m_paused s'"
    "m_sample_window_us s' = None"
    unfolding dp pushed keep using s(6) by auto
  have "run_calls N (tick_calls cfg step (Suc k)) s0 = Some s'"
    using s(1) s'(1) by (simp add: tick_calls_Suc run_calls_append)
  moreover have "step * (int k + 1) = step * int (Suc k)" by simp
  ultimately show ?case using s'(2,3,4,5,6) by auto
qed

lemma tick_tracker_run:
  assumes "2 \<le> N" "0 < step" "step * int N \<le> max 1 (iPerfSampleUSec cfg) * 1000" "k \<le> N"
  shows "run_calls N (tick_calls cfg step k) (Reset 0 zero_tracker) = Some (tick_tracker N cfg step k)"
    and "tracker_ok N (tick_tracker N cfg step k)"
    and "QueueList N (tick_tracker N cfg step k)
           = replicate (min k (N - 1)) \<lparr>duration = step, measurement = step\<rparr>"
    and "\<not> m_paused (tick_tracker N cfg step k)"
proof -
  have N: "0 < N" using assms(1) by simp
  have ok: "tracker_ok N (Reset 0 zero_tracker)"
    using Reset_ok [OF N zero_tracker_window] .
  have e: "QueueList N (Reset 0 zero_tracker) = []"
    using N by (simp add: QueueList_def QueueIndices_def QueueSize_def Reset_def QueueClear_def GetDifference_def)
  have f: "m_last_time (Reset 0 zero_tracker) = 0" "\<not> m_paused (Reset 0 zero_tracker)"
    "m_sample_window_us (Reset 0 zero_tracker) = None"
    by (simp_all add: Reset_def QueueClear_def zero_tracker_def)
  from tick_run [OF assms(1-3) ok e f assms(4)]
  obtain s where s: "run_calls N (tick_calls cfg step k) (Reset 0 zero_tracker) = Some s"
    "tracker_ok N s"
    "QueueList N s = replicate (min k (N - 1)) \<lparr>duration = step, measurement = step\<rparr>"
    "\<not> m_paused s"
    by blast
  then have "tick_tracker N cfg step k = s" by (simp add: tick_tracker_def)
  then show "run_calls N (tick_calls cfg step k) (Reset 0 zero_tracker) = Some (tick_tracker N cfg step k)"
    and "tracker_ok N (tick_tracker N cfg step k)"
    and "QueueList N (tick_tracker N cfg step k)
           = replicate (min k (N - 1)) \<lparr>duration = step, measurement = step\<rparr>"
    and "\<not> m_paused (tick_tracker N cfg step k)"
    using s by simp_all
qed

lemma tick_tracker_summary:
  assumes "2 \<le> N" "0 < step" "step * int N \<le> max 1 (iPerfSampleUSec cfg) * 1000" "k \<le> N" "0 < k"
  shows "window_summary N (tick_tracker N cfg step k)
         = (min k (N - 1), int (min k (N - 1)) * step, step)"
proof -
  let ?n = "min k (N - 1)"
  let ?xs = "replicate ?n \<lparr>duration = step, measurement = step\<rparr>"
  have n: "0 < ?n" using assms(1,5) by simp
  then have ne: "?xs \<noteq> []" by simp
  note t = tick_tracker_run [OF assms(1-4)]
  from tracker_ok_summary [OF t(2) t(3) ne]
  have "QueueSize N (tick_tracker N cfg step k) = ?n"
    "m_dt_total (tick_tracker N cfg step k) = pair_sum ?xs"
    "m_dt_avg (tick_tracker N cfg step k) = DT_div (measurement (pair_sum ?xs)) ?n"
    by simp_all
  moreover have "DT_div (int ?n * step) ?n = step"
    using n assms(2) by (simp add: DT_div_def)
  ultimately show ?thesis
    by (simp add: window_summary_def GetDtAvg_def pair_sum_replicate)
qed

lemma end_not_retained:
  assumes "tracker_inv N s"
  shows "m_dt_queue_end s \<notin> set (QueueIndices N s)"
proof
  assume "m_dt_queue_end s \<in> set (QueueIndices N s)"
  then obtain k where k: "k < QueueSize N s" "(m_dt_queue_begin s + k) mod N = m_dt_queue_end s"
    by (auto simp add: QueueIndices_def)
  have b: "m_dt_queue_begin s < N" and e: "m_dt_queue_end s < N"
    using assms by (simp_all add: tracker_inv_def)
  have "QueueSize N s < N" using b by (simp add: QueueSize_def GetDifference_less)
  moreover have "(m_dt_queue_begin s + QueueSize N s) mod N = m_dt_queue_end s"
    using b e by (simp add: QueueSize_def index_at_size)
  ultimately show False using index_distinct [OF b _ k(1)] k(2) by simp
qed

section \<open>The standard deviation of a window\<close>

lemma DT_of_seconds_sqrt_nonzero:
  assumes "1 \<le> c"
  shows "DT_of_seconds (sqrt c) \<noteq> 0"
proof -
  have "1 \<le> sqrt c" using assms by simp
  moreover have "sqrt c * 1 \<le> sqrt c * 10 ^ 9"
    using assms by (intro mult_left_mono) simp_all
  ultimately have "1 \<le> sqrt c * 10 ^ 9" by linarith
  then have f: "1 \<le> \<lfloor>sqrt c * 10 ^ 9\<rfloor>" by (simp add: le_floor_iff)
  have "0 \<le> sqrt c" using assms by simp
  then have g: "DT_of_seconds (sqrt c) = \<lfloor>sqrt c * 10 ^ 9\<rfloor>"
    by (simp add: DT_of_seconds_def)
  show ?thesis unfolding g using f by linarith
qed

section \<open>The running totals\<close>

text \<open>
  C3. After every sequence of calls of \<open>Count\<close>, \<open>Reset\<close>, \<open>SetPaused\<close> and the
  accessors on a tracker that has been reset (the constructor ends with \<open>Reset\<close>),
  the sequence has returned and the running totals are the sums of the durations
  and of the measurements of the samples retained between the begin and the end
  index. The window length is positive: an override, if given, is positive.
\<close>

theorem running_totals_exact:
  assumes "2 \<le> N" "window_positive s0"
  shows "\<exists>s. run_calls N calls (Reset now s0) = Some s
           \<and> duration (m_dt_total s) = sum_list (map duration (QueueList N s))
           \<and> measurement (m_dt_total s) = sum_list (map measurement (QueueList N s))"
proof -
  have "tracker_ok N (Reset now s0)" using assms by (intro Reset_ok) simp_all
  from run_calls_ok [OF assms(1) this, of calls]
  obtain s where "run_calls N calls (Reset now s0) = Some s" "tracker_ok N s" by blast
  then show ?thesis by (auto simp add: tracker_ok_def tracker_inv_def pair_sum_def)
qed

theorem running_totals_exact_witness:
  "2 \<le> (16384::nat) \<and> window_positive zero_tracker
   \<and> (\<exists>s. run_calls 16384
             [Call_Count default_config 4000 None False, Call_GetDtStd,
              Call_Count default_config 9000 (Some 700) True, Call_SetPaused True 9500,
              Call_Count default_config 9900 None False, Call_SetPaused False 12000,
              Call_Count default_config 15000 (Some 50) False]
             (Reset 0 zero_tracker) = Some s
           \<and> duration (m_dt_total s) = sum_list (map duration (QueueList 16384 s))
           \<and> measurement (m_dt_total s) = sum_list (map measurement (QueueList 16384 s)))"
proof -
  have n: "2 \<le> (16384::nat)" by simp
  have w: "window_positive zero_tracker" by (simp add: window_positive_def zero_tracker_def)
  show ?thesis using n w running_totals_exact [OF n w] by blast
qed

section \<open>The size of the window\<close>

text \<open>
  C4. In every tracker reached from \<open>Reset\<close> the window holds fewer samples than the
  capacity, a further call of \<open>Count\<close> returns with a window below the capacity, and
  when the tracker is not paused that window holds at least one sample.
\<close>

theorem window_size_bounds:
  assumes "2 \<le> N" "window_positive s0" "run_calls N calls (Reset t0 s0) = Some s"
  shows "QueueSize N s < N
         \<and> (\<exists>s'. Count N cfg now cm cont s = Some s' \<and> QueueSize N s' < N
                \<and> (\<not> m_paused s \<longrightarrow> 1 \<le> QueueSize N s'))"
proof -
  have ok: "tracker_ok N s" using reachable_ok [OF assms] .
  have N: "0 < N" using assms(1) by simp
  have sz: "\<And>x. QueueSize N x < N" using N by (simp add: QueueSize_def GetDifference_less)
  show ?thesis
  proof (cases "m_paused s")
    case True
    then show ?thesis using sz by (simp add: Count_def)
  next
    case False
    from Count_result [OF assms(1) _ _ False, of cfg now cm cont] ok
    obtain b t where
      "Count N cfg now cm cont s =
         Some (Count_stats N cfg (GetSampleWindow cfg s) (Count_data_point now cm cont s)
           ((Count_push N now (Count_data_point now cm cont s) s)\<lparr>m_dt_queue_begin := b, m_dt_total := t\<rparr>))"
      "0 < QueueSize N ((Count_push N now (Count_data_point now cm cont s) s)\<lparr>m_dt_queue_begin := b, m_dt_total := t\<rparr>)"
      unfolding tracker_ok_def by blast
    then show ?thesis using sz by (auto simp add: Count_stats_window)
  qed
qed

theorem window_size_bounds_witness:
  "2 \<le> (16384::nat) \<and> window_positive zero_tracker
   \<and> \<not> m_paused (the (run_calls 16384 [Call_Count default_config 4000 None False, Call_Count default_config 9000 None False] (Reset 0 zero_tracker)))
   \<and> QueueSize 16384 (the (run_calls 16384 [Call_Count default_config 4000 None False, Call_Count default_config 9000 None False] (Reset 0 zero_tracker))) < 16384
   \<and> (\<exists>s'. Count 16384 default_config 12000 None False
               (the (run_calls 16384 [Call_Count default_config 4000 None False, Call_Count default_config 9000 None False] (Reset 0 zero_tracker))) = Some s'
          \<and> QueueSize 16384 s' < 16384 \<and> 1 \<le> QueueSize 16384 s')"
proof -
  let ?r = "run_calls 16384 [Call_Count default_config 4000 None False, Call_Count default_config 9000 None False] (Reset 0 zero_tracker)"
  have w: "window_positive zero_tracker" by (simp add: window_positive_def zero_tracker_def)
  have r: "m_paused (the ?r) = False \<and> ?r \<noteq> None" by (simp add: run_eval)
  then have "?r = Some (the ?r)" by simp
  from window_size_bounds [OF _ w this, of default_config 12000 None False] r w
  show ?thesis by simp
qed

section \<open>A paused tracker ignores samples\<close>

text \<open>
  C9. While the tracker is paused, a call of \<open>Count\<close> returns at once and leaves every
  member of the tracker as it was: the window, the totals, the averages, the cached
  standard deviation, the last clock reading and the log.
\<close>

theorem Count_paused_noop:
  "m_paused s \<Longrightarrow> Count N cfg now custom_measurement is_continuous_duration s = Some s"
  by (simp add: Count_def)

theorem Count_paused_noop_witness:
  "m_paused (SetPaused True 5 zero_tracker)
   \<and> Count 16384 default_config 7 None False (SetPaused True 5 zero_tracker)
       = Some (SetPaused True 5 zero_tracker)"
  using Count_paused_noop [of "SetPaused True 5 zero_tracker" 16384 default_config 7 None False]
  by (simp add: SetPaused_def)

section \<open>The eviction rule\<close>

text \<open>
  C2. When \<open>Count\<close> is called on a tracker that is not paused, it returns, and the
  window it leaves is the window after the push with the oldest sample popped
  repeatedly, exactly while the total duration minus the duration of the oldest
  sample is at least the window length (\<open>evict_list\<close>, the rule in the words of the
  spec). The window after the push is the old window with the new sample at its
  end; when the old window held one sample less than the capacity, the statement
  before the loop has already dropped its oldest sample. After \<open>Count\<close> the total
  duration minus the duration of the oldest retained sample is below the window
  length.
\<close>

theorem Count_eviction_rule:
  assumes "2 \<le> N" "window_positive s0" "run_calls N calls (Reset t0 s0) = Some s"
    "\<not> m_paused s"
  shows "\<exists>s'. Count N cfg now cm cont s = Some s'
           \<and> QueueList N s' =
               evict_list (GetSampleWindow cfg s)
                 (QueueList N (Count_push N now (Count_data_point now cm cont s) s))
           \<and> QueueList N (Count_push N now (Count_data_point now cm cont s) s) =
               (if QueueSize N s = N - 1
                then tl (QueueList N s @ [Count_data_point now cm cont s])
                else QueueList N s @ [Count_data_point now cm cont s])
           \<and> duration (m_dt_total s') - duration (QueueTop s') < GetSampleWindow cfg s"
proof -
  let ?dp = "Count_data_point now cm cont s"
  let ?w = "GetSampleWindow cfg s"
  have ok: "tracker_ok N s" using reachable_ok [OF assms(1-3)] .
  then have i: "tracker_inv N s" and wp: "window_positive s" by (simp_all add: tracker_ok_def)
  from Count_result [OF assms(1) i wp assms(4), of cfg now cm cont]
  obtain b t where r:
    "Count N cfg now cm cont s =
       Some (Count_stats N cfg ?w ?dp ((Count_push N now ?dp s)\<lparr>m_dt_queue_begin := b, m_dt_total := t\<rparr>))"
    "tracker_inv N ((Count_push N now ?dp s)\<lparr>m_dt_queue_begin := b, m_dt_total := t\<rparr>)"
    "QueueList N ((Count_push N now ?dp s)\<lparr>m_dt_queue_begin := b, m_dt_total := t\<rparr>)
       = evict_list ?w (QueueList N (Count_push N now ?dp s))"
    "0 < QueueSize N ((Count_push N now ?dp s)\<lparr>m_dt_queue_begin := b, m_dt_total := t\<rparr>)"
    by blast
  let ?s1 = "(Count_push N now ?dp s)\<lparr>m_dt_queue_begin := b, m_dt_total := t\<rparr>"
  let ?s' = "Count_stats N cfg ?w ?dp ?s1"
  have ne: "QueueList N ?s1 \<noteq> []"
    using r(4) QueueList_length [of N ?s1] by auto
  then obtain y ys where y: "evict_list ?w (QueueList N (Count_push N now ?dp s)) = y # ys"
    using r(3) by (cases "evict_list ?w (QueueList N (Count_push N now ?dp s))") auto
  have "duration (m_dt_total ?s1) - duration (QueueTop ?s1)
        = sum_list (map duration (QueueList N ?s1)) - duration (hd (QueueList N ?s1))"
    using tracker_inv_top [OF r(2) r(4)] .
  also have "\<dots> < ?w"
    using evict_list_post [OF y] r(3) y by simp
  finally have post: "duration (m_dt_total ?s') - duration (QueueTop ?s') < ?w"
    by (simp add: Count_stats_window Count_stats_fields)
  have "QueueList N ?s' = evict_list ?w (QueueList N (Count_push N now ?dp s))"
    using r(3) by (simp add: Count_stats_window)
  then show ?thesis using r(1) post Count_push_list(2) [OF assms(1) i] by simp
qed

theorem Count_eviction_rule_witness:
  "2 \<le> (16384::nat) \<and> window_positive zero_tracker
   \<and> run_calls 16384 sample_calls (Reset 0 zero_tracker) = Some sample_tracker
   \<and> \<not> m_paused sample_tracker
   \<and> (\<exists>s'. Count 16384 default_config 12000 None False sample_tracker = Some s'
           \<and> QueueList 16384 s' =
               evict_list (GetSampleWindow default_config sample_tracker)
                 (QueueList 16384 (Count_push 16384 12000 (Count_data_point 12000 None False sample_tracker) sample_tracker))
           \<and> QueueList 16384 (Count_push 16384 12000 (Count_data_point 12000 None False sample_tracker) sample_tracker) =
               (if QueueSize 16384 sample_tracker = 16384 - 1
                then tl (QueueList 16384 sample_tracker @ [Count_data_point 12000 None False sample_tracker])
                else QueueList 16384 sample_tracker @ [Count_data_point 12000 None False sample_tracker])
           \<and> duration (m_dt_total s') - duration (QueueTop s') < GetSampleWindow default_config sample_tracker)"
proof -
  have n: "2 \<le> (16384::nat)" by simp
  have p: "\<not> m_paused sample_tracker" by (simp add: sample_tracker_fields)
  show ?thesis
    using n p zero_tracker_window sample_tracker_run
      Count_eviction_rule [OF n zero_tracker_window sample_tracker_run p, of default_config 12000 None False]
    by blast
qed

section \<open>The scenario of three samples of duration 4\<close>

text \<open>
  C5, as the spec states it, does not hold: with a window length of 10 microseconds
  and three samples of 4 microseconds each, pushed into an empty window, the window
  holds 3 samples of total duration 12 after the third push, not 2 samples of total
  duration 8.
\<close>

theorem scenario_three_fours_counterexample:
  "map_option (window_summary 16384)
     (run_calls 16384
        [Call_Count default_config 4000 None False,
         Call_Count default_config 8000 None False,
         Call_Count default_config 12000 None False]
        (PerformanceTracker_new None (Some 10) 0 zero_tracker))
   = Some (3, 12000, 4000)
   \<and> map_option (window_summary 16384)
     (run_calls 16384
        [Call_Count default_config 4000 None False,
         Call_Count default_config 8000 None False,
         Call_Count default_config 12000 None False]
        (PerformanceTracker_new None (Some 10) 0 zero_tracker))
   \<noteq> Some (2, 8000, 4000)"
  by (simp add: run_eval window_summary_def GetDtAvg_def)

text \<open>
  C5, amended. With a window length of 10 microseconds, three samples of 4
  microseconds each (the measurement is the duration), pushed into the empty window
  of a new tracker that is not paused, leave exactly 3 samples in the window after
  the third push, with total duration 12 and simple moving average 4 microseconds:
  nothing is evicted, because the loop compares the window length with the total
  minus the oldest sample, 12 - 4 = 8, which is below 10.
\<close>

theorem scenario_three_fours:
  assumes "4 \<le> N" "\<not> m_paused mem"
  shows "map_option (window_summary N)
     (run_calls N
        [Call_Count cfg1 (t0 + 4000) None False,
         Call_Count cfg2 (t0 + 8000) None False,
         Call_Count cfg3 (t0 + 12000) None False]
        (PerformanceTracker_new log_name (Some 10) t0 mem))
   = Some (3, 12000, 4000)"
proof -
  let ?dp = "\<lparr>duration = 4000, measurement = 4000\<rparr>"
  let ?s0 = "PerformanceTracker_new log_name (Some 10) t0 mem"
  have N: "2 \<le> N" "0 < N" using assms(1) by simp_all
  have s0: "tracker_ok N ?s0" "QueueList N ?s0 = []" "m_last_time ?s0 = t0" "\<not> m_paused ?s0"
    "m_sample_window_us ?s0 = Some 10"
    using new_tracker_ok [OF N(2), of "Some 10" log_name t0 mem] assms(2) by simp_all
  from Count_step [OF N(1) s0(1) s0(4), of cfg1 "t0 + 4000" None False]
  obtain s1 where s1: "Count N cfg1 (t0 + 4000) None False ?s0 = Some s1" "tracker_ok N s1"
    "QueueList N s1 = [?dp]" "m_last_time s1 = t0 + 4000" "\<not> m_paused s1"
    "m_sample_window_us s1 = Some 10"
    using s0 assms(1) QueueList_length [of N ?s0]
    by (auto simp add: GetSampleWindow_def Count_data_point_def)
  from Count_step [OF N(1) s1(2) s1(5), of cfg2 "t0 + 8000" None False]
  obtain s2 where s2: "Count N cfg2 (t0 + 8000) None False s1 = Some s2" "tracker_ok N s2"
    "QueueList N s2 = [?dp, ?dp]" "m_last_time s2 = t0 + 8000" "\<not> m_paused s2"
    "m_sample_window_us s2 = Some 10"
    using s1 assms(1) QueueList_length [of N s1]
    by (auto simp add: GetSampleWindow_def Count_data_point_def)
  from Count_step [OF N(1) s2(2) s2(5), of cfg3 "t0 + 12000" None False]
  obtain s3 where s3: "Count N cfg3 (t0 + 12000) None False s2 = Some s3" "tracker_ok N s3"
    "QueueList N s3 = [?dp, ?dp, ?dp]"
    using s2 assms(1) QueueList_length [of N s2]
    by (auto simp add: GetSampleWindow_def Count_data_point_def)
  have "window_summary N s3 = (3, 12000, 4000)"
    using tracker_ok_summary [OF s3(2,3)]
    by (simp add: window_summary_def GetDtAvg_def pair_sum_def DT_div_def)
  then show ?thesis using s1(1) s2(1) s3(1) by simp
qed

theorem scenario_three_fours_witness:
  "4 \<le> (16384::nat) \<and> \<not> m_paused zero_tracker
   \<and> map_option (window_summary 16384)
     (run_calls 16384
        [Call_Count default_config (100 + 4000) None False,
         Call_Count default_config (100 + 8000) None False,
         Call_Count default_config (100 + 12000) None False]
        (PerformanceTracker_new (Some ''render.txt'') (Some 10) 100 zero_tracker))
   = Some (3, 12000, 4000)"
proof -
  have n: "4 \<le> (16384::nat)" by simp
  have p: "\<not> m_paused zero_tracker" by (simp add: zero_tracker_def)
  show ?thesis using n p scenario_three_fours [OF n p] by blast
qed

section \<open>The exponential moving average of the rate\<close>

text \<open>
  C7, as the spec states it, does not hold: it names the first sample as a case in
  which the old moving average is not finite and the average is set to the rate.
  On a new tracker the stored average is 0, which is finite, and after the first
  sample, taken 16 microseconds after the reset, the rate is 62500 per second and
  the moving average is not 62500.
\<close>

theorem first_sample_counterexample:
  "isfinite (GetHzAvg (PerformanceTracker_new None None 0 zero_tracker))
   \<and> map_option (Count_hz 16384)
       (Count 16384 default_config 16000 None False (PerformanceTracker_new None None 0 zero_tracker))
     = Some (Finite 62500)
   \<and> map_option GetHzAvg
       (Count 16384 default_config 16000 None False (PerformanceTracker_new None None 0 zero_tracker))
     \<noteq> Some (Finite 62500)"
  by (simp add: run_eval GetHzAvg_def)

text \<open>
  C7, amended. When \<open>Count\<close> is called on a tracker that is not paused, the moving
  average of the rate is updated by a one-pole filter whose time constant is 0.33
  times the window length: with \<open>\<alpha> = 1 - exp (- d / (0.33 * window))\<close>, where \<open>d\<close>
  is the duration recorded for the new sample, the new average is
  \<open>old + \<alpha> * (rate - old)\<close> when the old average is finite, and the rate itself when
  the old average is not finite, which is the case after a degenerate state and not
  at the first sample. The duration recorded for the sample is the time since the
  last sample, except in continuous-duration mode with a custom measurement, where
  it is that measurement.
\<close>

theorem Count_ema_update:
  assumes "2 \<le> N" "window_positive s0" "run_calls N calls (Reset t0 s0) = Some s"
    "\<not> m_paused s"
  shows "\<exists>s'. Count N cfg now cm cont s = Some s'
           \<and> GetHzAvg s' =
               (if isfinite (GetHzAvg s)
                then dplus (GetHzAvg s)
                       (dtimes
                          (Finite (1 - exp (- ((real_of_int (duration (Count_data_point now cm cont s)) / 10 ^ 9)
                                               / (33 / 100 * (real_of_int (GetSampleWindow cfg s) / 10 ^ 9))))))
                          (dminus (Count_hz N s') (GetHzAvg s)))
                else Count_hz N s')
           \<and> duration (Count_data_point now cm cont s) =
               (if cont then (case cm of Some v \<Rightarrow> v | None \<Rightarrow> now - m_last_time s)
                else now - m_last_time s)"
proof -
  from reachable_Count_step [OF assms, of cfg now cm cont]
  obtain s' where s': "Count N cfg now cm cont s = Some s'" "0 < GetSampleWindow cfg s"
    "m_hz_avg s' =
       (if isfinite (m_hz_avg s)
        then dplus (m_hz_avg s)
               (dtimes (Count_a (GetSampleWindow cfg s) (Count_data_point now cm cont s))
                  (dminus (Count_hz N s') (m_hz_avg s)))
        else Count_hz N s')"
    by blast
  have "duration (Count_data_point now cm cont s) =
          (if cont then (case cm of Some v \<Rightarrow> v | None \<Rightarrow> now - m_last_time s)
           else now - m_last_time s)"
    by (simp add: Count_data_point_def Let_def)
  then show ?thesis
    using s'(1,3) Count_a_positive_window [OF s'(2), of "Count_data_point now cm cont s"]
    by (simp add: GetHzAvg_def)
qed

theorem Count_ema_update_witness:
  "2 \<le> (16384::nat) \<and> window_positive zero_tracker
   \<and> run_calls 16384 sample_calls (Reset 0 zero_tracker) = Some sample_tracker
   \<and> \<not> m_paused sample_tracker
   \<and> (\<exists>s'. Count 16384 default_config 12000 (Some 2500) True sample_tracker = Some s'
           \<and> GetHzAvg s' =
               (if isfinite (GetHzAvg sample_tracker)
                then dplus (GetHzAvg sample_tracker)
                       (dtimes
                          (Finite (1 - exp (- ((real_of_int (duration (Count_data_point 12000 (Some 2500) True sample_tracker)) / 10 ^ 9)
                                               / (33 / 100 * (real_of_int (GetSampleWindow default_config sample_tracker) / 10 ^ 9))))))
                          (dminus (Count_hz 16384 s') (GetHzAvg sample_tracker)))
                else Count_hz 16384 s')
           \<and> duration (Count_data_point 12000 (Some 2500) True sample_tracker) =
               (if True then (case Some 2500 of Some v \<Rightarrow> v | None \<Rightarrow> 12000 - m_last_time sample_tracker)
                else 12000 - m_last_time sample_tracker))"
proof -
  have n: "2 \<le> (16384::nat)" by simp
  have p: "\<not> m_paused sample_tracker" by (simp add: sample_tracker_fields)
  show ?thesis
    using n p zero_tracker_window sample_tracker_run
      Count_ema_update [OF n zero_tracker_window sample_tracker_run p, of default_config 12000 "Some 2500" True]
    by blast
qed

section \<open>The rate fed into the moving average\<close>

text \<open>
  C1, as the spec states it, does not hold. A sample with the custom measurement 50
  microseconds, taken 16 microseconds after the reset, gives the rate 1 / 50
  microseconds = 20000 per second, not 1 / 16 microseconds = 62500 per second; and a
  sample of duration and measurement 0 gives the rate plus infinity, not 0.
\<close>

theorem Count_rate_counterexample:
  "map_option (Count_hz 16384)
     (Count 16384 default_config 16000 (Some 50000) False (PerformanceTracker_new None None 0 zero_tracker))
   = Some (Finite 20000)
   \<and> map_option (spec_rate 16384)
     (Count 16384 default_config 16000 (Some 50000) False (PerformanceTracker_new None None 0 zero_tracker))
   = Some (Finite 62500)
   \<and> map_option (Count_hz 16384)
     (Count 16384 default_config 16000 (Some 0) True (PerformanceTracker_new None None 0 zero_tracker))
   = Some PInf
   \<and> map_option (spec_rate 16384)
     (Count 16384 default_config 16000 (Some 0) True (PerformanceTracker_new None None 0 zero_tracker))
   = Some (Finite 0)"
  by (simp add: run_eval spec_rate_def)

text \<open>
  C1, amended. After every ingestion by a tracker that is not paused, the rate fed
  into the moving average is the number of samples in the window divided by the
  total measurement of the window in seconds (the total duration only when every
  retained sample was measured by its duration); when the total measurement is
  zero the rate is plus infinity, which is not finite.
\<close>

theorem Count_rate_of_measurement:
  assumes "2 \<le> N" "window_positive s0" "run_calls N calls (Reset t0 s0) = Some s"
    "\<not> m_paused s"
  shows "\<exists>s'. Count N cfg now cm cont s = Some s'
           \<and> GetHzAvg s' =
               (if isfinite (GetHzAvg s)
                then dplus (GetHzAvg s)
                       (dtimes (Count_a (GetSampleWindow cfg s) (Count_data_point now cm cont s))
                          (dminus (Count_hz N s') (GetHzAvg s)))
                else Count_hz N s')
           \<and> Count_hz N s' =
               (if measurement (m_dt_total s') = 0 then PInf
                else Finite (real (QueueSize N s')
                             / (real_of_int (measurement (m_dt_total s')) / 10 ^ 9)))"
proof -
  from reachable_Count_step [OF assms, of cfg now cm cont]
  obtain s' where s': "Count N cfg now cm cont s = Some s'" "0 < QueueSize N s'"
    "m_hz_avg s' =
       (if isfinite (m_hz_avg s)
        then dplus (m_hz_avg s)
               (dtimes (Count_a (GetSampleWindow cfg s) (Count_data_point now cm cont s))
                  (dminus (Count_hz N s') (m_hz_avg s)))
        else Count_hz N s')"
    by blast
  show ?thesis using s'(1,3) Count_hz_value [OF s'(2)] by (simp add: GetHzAvg_def)
qed

theorem Count_rate_of_measurement_witness:
  "2 \<le> (16384::nat) \<and> window_positive zero_tracker
   \<and> run_calls 16384 sample_calls (Reset 0 zero_tracker) = Some sample_tracker
   \<and> \<not> m_paused sample_tracker
   \<and> (\<exists>s'. Count 16384 default_config 25000 (Some 50000) False sample_tracker = Some s'
           \<and> GetHzAvg s' =
               (if isfinite (GetHzAvg sample_tracker)
                then dplus (GetHzAvg sample_tracker)
                       (dtimes (Count_a (GetSampleWindow default_config sample_tracker)
                                  (Count_data_point 25000 (Some 50000) False sample_tracker))
                          (dminus (Count_hz 16384 s') (GetHzAvg sample_tracker)))
                else Count_hz 16384 s')
           \<and> Count_hz 16384 s' =
               (if measurement (m_dt_total s') = 0 then PInf
                else Finite (real (QueueSize 16384 s')
                             / (real_of_int (measurement (m_dt_total s')) / 10 ^ 9))))"
proof -
  have n: "2 \<le> (16384::nat)" by simp
  have p: "\<not> m_paused sample_tracker" by (simp add: sample_tracker_fields)
  show ?thesis
    using n p zero_tracker_window sample_tracker_run
      Count_rate_of_measurement [OF n zero_tracker_window sample_tracker_run p, of default_config 25000 "Some 50000" False]
    by blast
qed

section \<open>The first sample after a reset\<close>




section \<open>A push into a full ring buffer\<close>

text \<open>
  C8, as the spec states it, does not hold. With the configured window of one second
  and a sample every microsecond, the window rule never evicts during the first
  16384 samples (they span 16384 microseconds). A buffer of capacity 16384 holds
  16383 samples after 16383 calls; the next call returns as every other call does
  and leaves 16383 samples with the same total: the oldest sample was discarded
  because the indices met, and nothing was raised. The capacity 16384 is the one
  the spec gives as an example; lemma \<open>tick_tracker_summary\<close> shows the same for
  every capacity.
\<close>

theorem full_buffer_counterexample:
  "GetSampleWindow default_config (Reset 0 zero_tracker) = 1000000000
   \<and> map_option (window_summary 16384)
       (run_calls 16384 (tick_calls default_config 1000 16383) (Reset 0 zero_tracker))
     = Some (16383, 16383000, 1000)
   \<and> map_option (window_summary 16384)
       (run_calls 16384 (tick_calls default_config 1000 16384) (Reset 0 zero_tracker))
     = Some (16383, 16383000, 1000)"
proof -
  have c: "2 \<le> (16384::nat)" "(0::int) < 1000"
    "1000 * int 16384 \<le> max 1 (iPerfSampleUSec default_config) * 1000"
    by (simp_all add: default_config_def)
  have "GetSampleWindow default_config (Reset 0 zero_tracker) = 1000000000"
    by (simp add: GetSampleWindow_def Reset_def QueueClear_def zero_tracker_def default_config_def)
  moreover have "window_summary 16384 (tick_tracker 16384 default_config 1000 16383) = (16383, 16383000, 1000)"
    using tick_tracker_summary [OF c, of 16383] by simp
  moreover have "window_summary 16384 (tick_tracker 16384 default_config 1000 16384) = (16383, 16383000, 1000)"
    using tick_tracker_summary [OF c, of 16384] by simp
  ultimately show ?thesis
    using tick_tracker_run(1) [OF c, of 16383] tick_tracker_run(1) [OF c, of 16384] by simp
qed

text \<open>
  C8, amended. \<open>QueuePush\<close> writes at the end index, which is not the slot of a
  retained sample, so no retained sample is overwritten, and the window never holds
  more than the capacity minus one samples. When the window holds exactly that many
  samples, the push makes the indices meet and \<open>Count\<close> drops the oldest sample
  before the eviction loop, without any assertion: it returns, and the window it
  leaves is the eviction rule applied to the old window without its oldest sample,
  followed by the new sample.
\<close>

theorem Count_drops_oldest_on_wrap:
  assumes "2 \<le> N" "window_positive s0" "run_calls N calls (Reset t0 s0) = Some s"
    "\<not> m_paused s"
  shows "QueueSize N s \<le> N - 1
         \<and> m_dt_queue_end s \<notin> set (QueueIndices N s)
         \<and> (\<exists>s'. Count N cfg now cm cont s = Some s'
               \<and> QueueSize N s' \<le> N - 1
               \<and> (QueueSize N s = N - 1 \<longrightarrow>
                     QueueList N s' =
                       evict_list (GetSampleWindow cfg s)
                         (tl (QueueList N s) @ [Count_data_point now cm cont s])))"
proof -
  have ok: "tracker_ok N s" using reachable_ok [OF assms(1-3)] .
  have N: "0 < N" using assms(1) by simp
  have sz: "\<And>x. QueueSize N x \<le> N - 1"
  proof -
    fix x have "QueueSize N x < N" using N by (simp add: QueueSize_def GetDifference_less)
    then show "QueueSize N x \<le> N - 1" by simp
  qed
  have e: "m_dt_queue_end s \<notin> set (QueueIndices N s)"
    using ok by (intro end_not_retained) (simp add: tracker_ok_def)
  from Count_step [OF assms(1) ok assms(4), of cfg now cm cont]
  obtain s' where s': "Count N cfg now cm cont s = Some s'"
    "QueueList N s' =
       evict_list (GetSampleWindow cfg s)
         (if QueueSize N s = N - 1
          then tl (QueueList N s @ [Count_data_point now cm cont s])
          else QueueList N s @ [Count_data_point now cm cont s])"
    by blast
  have "QueueList N s' =
          evict_list (GetSampleWindow cfg s) (tl (QueueList N s) @ [Count_data_point now cm cont s])"
    if f: "QueueSize N s = N - 1"
  proof -
    have "QueueList N s \<noteq> []"
      using f assms(1) QueueList_length [of N s] by auto
    then show ?thesis using s'(2) f by simp
  qed
  then show ?thesis using sz e s'(1) by blast
qed

theorem Count_drops_oldest_on_wrap_witness:
  "2 \<le> (16384::nat) \<and> window_positive zero_tracker
   \<and> run_calls 16384 (tick_calls default_config 1000 16383) (Reset 0 zero_tracker)
       = Some (tick_tracker 16384 default_config 1000 16383)
   \<and> \<not> m_paused (tick_tracker 16384 default_config 1000 16383)
   \<and> QueueSize 16384 (tick_tracker 16384 default_config 1000 16383) = 16384 - 1
   \<and> m_dt_queue_end (tick_tracker 16384 default_config 1000 16383)
        \<notin> set (QueueIndices 16384 (tick_tracker 16384 default_config 1000 16383))
   \<and> (\<exists>s'. Count 16384 default_config 16384000 None False (tick_tracker 16384 default_config 1000 16383) = Some s'
         \<and> QueueSize 16384 s' \<le> 16384 - 1
         \<and> QueueList 16384 s' =
             evict_list (GetSampleWindow default_config (tick_tracker 16384 default_config 1000 16383))
               (tl (QueueList 16384 (tick_tracker 16384 default_config 1000 16383))
                @ [Count_data_point 16384000 None False (tick_tracker 16384 default_config 1000 16383)]))"
proof -
  have c: "2 \<le> (16384::nat)" "(0::int) < 1000"
    "1000 * int 16384 \<le> max 1 (iPerfSampleUSec default_config) * 1000" "(16383::nat) \<le> 16384"
    by (simp_all add: default_config_def)
  note t = tick_tracker_run [OF c]
  have "QueueSize 16384 (tick_tracker 16384 default_config 1000 16383) = 16383"
    using t(3) QueueList_length [of 16384 "tick_tracker 16384 default_config 1000 16383"] by simp
  then have f: "QueueSize 16384 (tick_tracker 16384 default_config 1000 16383) = 16384 - 1" by simp
  show ?thesis
    using c(1) zero_tracker_window t(1) t(4) f
      Count_drops_oldest_on_wrap [OF c(1) zero_tracker_window t(1) t(4), of default_config 16384000 None False]
    by blast
qed

section \<open>The standard deviation\<close>

text \<open>
  C6 is right about what \<open>GetDtStd\<close> is to return, and the code departs from it when
  the total measurement is negative. Two samples with the custom measurement -3000
  are a window of two equal measurements, for which the claim gives the standard
  deviation 0. \<open>Count\<close> divides the total -6000 by the unsigned \<open>QueueSize()\<close>: the
  stored average is \<open>(2 ^ 64 - 6000) div 2 = 2 ^ 63 - 3000\<close> and not -3000, and
  \<open>GetDtStd\<close>, which measures the deviation from the stored average, returns a value
  that is not 0.
\<close>

theorem negative_measurements_stddev:
  "map_option (QueueList 16384)
     (run_calls 16384 negative_calls (PerformanceTracker_new None None 0 zero_tracker))
   = Some [\<lparr>duration = 4000, measurement = - 3000\<rparr>, \<lparr>duration = 4000, measurement = - 3000\<rparr>]
   \<and> map_option (window_summary 16384)
     (run_calls 16384 negative_calls (PerformanceTracker_new None None 0 zero_tracker))
   = Some (2, 8000, 9223372036854772808)
   \<and> Option.bind
       (run_calls 16384 negative_calls (PerformanceTracker_new None None 0 zero_tracker))
       (GetDtStd_value 16384) \<noteq> None
   \<and> Option.bind
       (run_calls 16384 negative_calls (PerformanceTracker_new None None 0 zero_tracker))
       (GetDtStd_value 16384) \<noteq> Some 0"
proof -
  have "map_option (QueueList 16384)
     (run_calls 16384 negative_calls (PerformanceTracker_new None None 0 zero_tracker))
   = Some [\<lparr>duration = 4000, measurement = - 3000\<rparr>, \<lparr>duration = 4000, measurement = - 3000\<rparr>]"
    by (simp add: negative_calls_def run_eval QueueList_def QueueIndices_def upt_conv_Cons)
  moreover have "map_option (window_summary 16384)
     (run_calls 16384 negative_calls (PerformanceTracker_new None None 0 zero_tracker))
   = Some (2, 8000, 9223372036854772808)"
    by (simp add: negative_calls_def run_eval window_summary_def GetDtAvg_def)
  moreover have "Option.bind
       (run_calls 16384 negative_calls (PerformanceTracker_new None None 0 zero_tracker))
       (GetDtStd_value 16384) \<noteq> None"
    by (simp add: negative_calls_def run_eval GetDtStd_value_def)
  moreover have "Option.bind
       (run_calls 16384 negative_calls (PerformanceTracker_new None None 0 zero_tracker))
       (GetDtStd_value 16384) \<noteq> Some 0"
    by (simp add: negative_calls_def run_eval GetDtStd_value_def DT_of_seconds_sqrt_nonzero)
  ultimately show ?thesis by blast
qed

end
